theory Spec2Isabelle
  imports Main "HOL-Library.Word" "HOL-Library.Monad_Syntax"
begin

section \<open>Data model of button.h (library version 2.0)\<close>

type_synonym uint8_t = "8 word"
type_synonym uint16_t = "16 word"
type_synonym uint32_t = "32 word"

text \<open>The enumeration \<^verbatim>\<open>btn_state_t\<close>; \<open>BTN_STATE_NONE\<close> is the value 0.\<close>

datatype btn_state_t = BTN_STATE_NONE | BTN_STATE_SHORT | BTN_STATE_LONG

text \<open>
  The user's pin-read function reads hardware, so its answer depends on the state of the
  world \<open>'w\<close> at the moment of the call. An event callback is a function pointer; it is
  represented by the identity of the function it points to, and a call through it is
  recorded as the pair of that function and the button code it was given.
\<close>

type_synonym 'w port_read_cb_t = "'w \<Rightarrow> uint32_t \<Rightarrow> uint32_t \<Rightarrow> uint8_t"
type_synonym btn_ev_cb_t = nat
type_synonym btn_call = "btn_ev_cb_t \<times> uint8_t"

text \<open>
  \<^verbatim>\<open>btn_instance_t\<close>: the bit-fields \<open>state.act\<close>, \<open>state.prew\<close> and \<open>state.locked\<close>
  followed by the counters and the user's parameters. The two-bit fields are taken to hold
  each of the three enumerators as it is (the enumeration has no negative value, and the
  compilers of the unit tests make such a bit-field unsigned). \<open>port\<close> is the address of
  the GPIO port.
\<close>

record btn_instance_t =
  act :: btn_state_t
  prew :: btn_state_t
  locked :: bool
  lock_count :: uint8_t
  long_count :: uint16_t
  long_press_time_ms :: uint16_t
  port :: uint32_t
  pin :: uint32_t

text \<open>
  \<^verbatim>\<open>btn_init_t\<close>. The field \<open>instance\<close> of the source is a pointer to the caller's array;
  here the field \<open>instance_arr\<close> holds the array it points to. A function pointer that may
  be \<open>NULL\<close> is an option.
\<close>

record 'w btn_init_t =
  instance_arr :: "btn_instance_t list"
  count :: uint8_t
  process_time_ms :: uint8_t
  debounce_time_ms :: uint8_t
  long_press_def_ms :: uint16_t
  port_read :: "'w port_read_cb_t option"
  short_release :: "btn_ev_cb_t option"
  long_release :: "btn_ev_cb_t option"
  long_press :: "btn_ev_cb_t option"

section \<open>button.c\<close>

definition BTN_PROCESS_DEF :: uint8_t where
  "BTN_PROCESS_DEF = 10"

definition BTN_DEBOUNCE_DEF :: uint8_t where
  "BTN_DEBOUNCE_DEF = 20"

definition BTN_LONG_PRESS_DEF :: uint16_t where
  "BTN_LONG_PRESS_DEF = 1000"

text \<open>
  The two macros divide in \<^verbatim>\<open>int\<close> after the integer promotions. A division by zero is
  undefined behaviour in C: it is the result \<open>None\<close>.
\<close>

definition BTN_DEBOUNCE_TIME :: "'w btn_init_t \<Rightarrow> int option" where
  "BTN_DEBOUNCE_TIME this =
     (if process_time_ms this = 0 then None
      else Some (uint (debounce_time_ms this) div uint (process_time_ms this)))"

definition BTN_LONG_PRESS_TIME :: "'w btn_init_t \<Rightarrow> btn_instance_t \<Rightarrow> int option" where
  "BTN_LONG_PRESS_TIME this b =
     (if process_time_ms this = 0 then None
      else Some (uint (long_press_time_ms b) div uint (process_time_ms this)))"

subsection \<open>Button_Init\<close>

text \<open>The body of the \<^verbatim>\<open>for\<close> loop of \<^verbatim>\<open>Button_Init\<close>, on the instance \<open>b\<close>.\<close>

definition Button_Init_instance :: "'w btn_init_t \<Rightarrow> btn_instance_t \<Rightarrow> btn_instance_t" where
  "Button_Init_instance this b =
     b\<lparr>locked := False,
       prew := BTN_STATE_NONE,
       long_count := 0,
       lock_count := 0,
       long_press_time_ms :=
         (if long_press_time_ms b \<noteq> 0 then long_press_time_ms b else long_press_def_ms this)\<rparr>"

text \<open>
  The loop \<^verbatim>\<open>for (uint8_t i = 0; i < count; i++)\<close>. An index beyond the caller's array is
  an out-of-bounds access, undefined behaviour in C: the result is \<open>None\<close>.
\<close>

function Button_Init_loop ::
  "'w btn_init_t \<Rightarrow> uint8_t \<Rightarrow> uint8_t \<Rightarrow> btn_instance_t list \<Rightarrow> btn_instance_t list option" where
  "Button_Init_loop this cnt i insts =
     (if i < cnt then
        (if unat i < length insts then
           Button_Init_loop this cnt (i + 1)
             (insts[unat i := Button_Init_instance this (insts ! unat i)])
         else None)
      else Some insts)"
  by pat_completeness auto
termination
proof (relation "measure (\<lambda>(this, cnt, i, insts). unat cnt - unat i)")
  fix this :: "'w btn_init_t" and cnt i :: uint8_t and insts :: "btn_instance_t list"
  assume "i < cnt"
  then have lt: "unat i < unat cnt"
    by (simp add: word_less_nat_alt)
  have "unat cnt < 256"
    using unsigned_less [of cnt, where ?'a = nat] by simp
  with lt have "unat (i + 1) = Suc (unat i)"
    by (simp add: unat_word_ariths)
  with lt show "((this, cnt, i + 1, insts[unat i := Button_Init_instance this (insts ! unat i)]),
                 (this, cnt, i, insts)) \<in> measure (\<lambda>(this, cnt, i, insts). unat cnt - unat i)"
    by simp
qed simp

declare Button_Init_loop.simps [simp del]

text \<open>
  \<^verbatim>\<open>Button_Init\<close>. The arguments \<open>init\<close> and \<open>inst\<close> are pointers (\<open>None\<close> is \<open>NULL\<close>); the
  last argument is the file-scope pointer \<^verbatim>\<open>this\<close> before the call. The result is the
  return code with the pointer \<^verbatim>\<open>this\<close> after the call.
\<close>

definition Button_Init ::
  "'w btn_init_t option \<Rightarrow> btn_instance_t list option \<Rightarrow> uint8_t \<Rightarrow> 'w btn_init_t option
     \<Rightarrow> (int \<times> 'w btn_init_t option) option" where
  "Button_Init init inst cnt this =
     (case init of
        None \<Rightarrow> Some (- 1, this)
      | Some i \<Rightarrow>
          (case inst of
             None \<Rightarrow> Some (- 1, this)
           | Some a \<Rightarrow>
               if port_read i = None \<or> cnt = 0 then Some (- 1, this)
               else
                 (let t = i\<lparr>instance_arr := a,
                            count := cnt,
                            process_time_ms :=
                              (if process_time_ms i \<noteq> 0 then process_time_ms i
                               else BTN_PROCESS_DEF),
                            debounce_time_ms :=
                              (if debounce_time_ms i \<noteq> 0 then debounce_time_ms i
                               else BTN_DEBOUNCE_DEF),
                            long_press_def_ms :=
                              (if long_press_def_ms i \<noteq> 0 then long_press_def_ms i
                               else BTN_LONG_PRESS_DEF)\<rparr>
                  in case Button_Init_loop t cnt 0 a of
                       None \<Rightarrow> None
                     | Some a' \<Rightarrow> Some (0, Some (t\<lparr>instance_arr := a'\<rparr>)))))"

subsection \<open>Button_Update\<close>

text \<open>\<^verbatim>\<open>if (NULL != cb) cb(key);\<close>\<close>

definition invoke :: "btn_ev_cb_t option \<Rightarrow> uint8_t \<Rightarrow> btn_call list" where
  "invoke cb key = (case cb of None \<Rightarrow> [] | Some f \<Rightarrow> [(f, key)])"

text \<open>The branch \<^verbatim>\<open>BTN_STATE_SHORT == now_pressed\<close> of the loop body.\<close>

definition Button_Update_pressed ::
  "'w btn_init_t \<Rightarrow> uint8_t \<Rightarrow> btn_instance_t \<Rightarrow> (btn_instance_t \<times> btn_call list) option" where
  "Button_Update_pressed this key b =
     do {
       b1 \<leftarrow> (if \<not> locked b then
                do {
                  d \<leftarrow> BTN_DEBOUNCE_TIME this;
                  let bi = b\<lparr>lock_count := lock_count b + 1\<rparr>;
                  Some (if d \<le> uint (lock_count bi) then bi\<lparr>locked := True\<rparr> else bi)
                }
              else Some b);
       (b2, cs) \<leftarrow> (if locked b1 \<and> prew b1 = BTN_STATE_SHORT then
                do {
                  t \<leftarrow> BTN_LONG_PRESS_TIME this b1;
                  let bi = b1\<lparr>long_count := long_count b1 + 1\<rparr>;
                  Some (if t \<le> uint (long_count bi)
                        then (bi\<lparr>act := BTN_STATE_LONG\<rparr>, invoke (long_press this) key)
                        else (bi, []))
                }
              else Some (b1, []));
       Some (b2\<lparr>prew := BTN_STATE_SHORT\<rparr>, cs)
     }"

text \<open>The branch \<^verbatim>\<open>BTN_STATE_NONE == now_pressed\<close> of the loop body.\<close>

definition Button_Update_released ::
  "'w btn_init_t \<Rightarrow> uint8_t \<Rightarrow> btn_instance_t \<Rightarrow> (btn_instance_t \<times> btn_call list) option" where
  "Button_Update_released this key b =
     (if locked b then
        (if lock_count b \<noteq> 0 then Some (b\<lparr>lock_count := lock_count b - 1\<rparr>, [])
         else
           (let b1 = b\<lparr>locked := False\<rparr> in
            do {
              t \<leftarrow> BTN_LONG_PRESS_TIME this b1;
              if uint (long_count b1) < t then
                (if lock_count b1 = 0
                 then Some (b1\<lparr>act := BTN_STATE_SHORT\<rparr>, invoke (short_release this) key)
                 else Some (b1, []))
              else
                (if act b1 = BTN_STATE_LONG
                 then Some (b1, invoke (long_release this) key)
                 else Some (b1, []))
            }))
      else Some (b\<lparr>long_count := 0\<rparr>, []))"

text \<open>
  One iteration of the \<^verbatim>\<open>while\<close> loop, on the instance \<open>b\<close> of index \<open>key\<close>, in the world
  \<open>w\<close>. A call through a \<open>NULL\<close> pin-read pointer is undefined behaviour.
\<close>

definition Button_Update_key ::
  "'w btn_init_t \<Rightarrow> 'w \<Rightarrow> uint8_t \<Rightarrow> btn_instance_t \<Rightarrow> (btn_instance_t \<times> btn_call list) option" where
  "Button_Update_key this w key b =
     (case port_read this of
        None \<Rightarrow> None
      | Some rd \<Rightarrow>
          (let now_pressed =
                 (if rd w (port b) (pin b) \<noteq> 0 then BTN_STATE_SHORT else BTN_STATE_NONE)
           in if now_pressed = BTN_STATE_SHORT then Button_Update_pressed this key b
              else if now_pressed = BTN_STATE_NONE then Button_Update_released this key b
              else Some (b, [])))"

text \<open>
  The loop \<^verbatim>\<open>while (key < this->count)\<close>. The calls made so far are accumulated in order.
\<close>

function Button_Update_loop ::
  "'w btn_init_t \<Rightarrow> 'w \<Rightarrow> uint8_t \<Rightarrow> btn_instance_t list \<Rightarrow> btn_call list
     \<Rightarrow> (btn_instance_t list \<times> btn_call list) option" where
  "Button_Update_loop this w key insts cs =
     (if key < count this then
        (if unat key < length insts then
           (case Button_Update_key this w key (insts ! unat key) of
              None \<Rightarrow> None
            | Some (b', cs') \<Rightarrow>
                Button_Update_loop this w (key + 1) (insts[unat key := b']) (cs @ cs'))
         else None)
      else Some (insts, cs))"
  by pat_completeness auto
termination
proof (relation "measure (\<lambda>(this, w, key, insts, cs). unat (count this) - unat key)")
  fix this :: "'w btn_init_t" and w :: 'w and key :: uint8_t
    and insts :: "btn_instance_t list" and cs cs' :: "btn_call list" and b' :: btn_instance_t
  assume "key < count this"
  then have lt: "unat key < unat (count this)"
    by (simp add: word_less_nat_alt)
  have "unat (count this) < 256"
    using unsigned_less [of "count this", where ?'a = nat] by simp
  with lt have "unat (key + 1) = Suc (unat key)"
    by (simp add: unat_word_ariths)
  with lt show "((this, w, key + 1, insts[unat key := b'], cs @ cs'), (this, w, key, insts, cs))
                 \<in> measure (\<lambda>(this, w, key, insts, cs). unat (count this) - unat key)"
    by simp
qed simp

declare Button_Update_loop.simps [simp del]

text \<open>
  \<^verbatim>\<open>Button_Update\<close>, from the file-scope pointer \<^verbatim>\<open>this\<close> (\<open>None\<close> is \<open>NULL\<close>, whose
  dereference is undefined behaviour) in the world \<open>w\<close>. The result is the pointer with the
  updated storage, and the callback calls in the order they were made.
\<close>

definition Button_Update ::
  "'w btn_init_t option \<Rightarrow> 'w \<Rightarrow> ('w btn_init_t option \<times> btn_call list) option" where
  "Button_Update this w =
     (case this of
        None \<Rightarrow> None
      | Some t \<Rightarrow>
          (case Button_Update_loop t w 0 (instance_arr t) [] of
             None \<Rightarrow> None
           | Some (insts, cs) \<Rightarrow> Some (Some (t\<lparr>instance_arr := insts\<rparr>), cs)))"

subsection \<open>Button_EventGet\<close>

definition Button_EventGet :: "'w btn_init_t option \<Rightarrow> uint8_t \<Rightarrow> btn_state_t option" where
  "Button_EventGet this key =
     (case this of
        None \<Rightarrow> None
      | Some t \<Rightarrow>
          if count t \<le> key then Some BTN_STATE_NONE
          else if unat key < length (instance_arr t) then Some (act (instance_arr t ! unat key))
          else None)"

section \<open>The earlier version of the library (version 1.0)\<close>

text \<open>
  The repository keeps the first version of \<^verbatim>\<open>button.c\<close> beside the current one. Its
  timings are compile-time constants, its three callbacks are weak functions that the user
  may override, and it has no initialization structure. The names that the two versions
  share carry the suffix \<open>_v1\<close> here.
\<close>

type_synonym 'w portReadCallback_t = "'w \<Rightarrow> uint32_t \<Rightarrow> uint32_t \<Rightarrow> bool"

record btnInstance_t =
  state :: btn_state_t
  prewState :: btn_state_t
  locked_v1 :: bool
  lockCount :: uint8_t
  longCount :: uint16_t
  port_v1 :: uint32_t
  pin_v1 :: uint32_t

text \<open>The file-scope variables \<^verbatim>\<open>btnAmount\<close>, \<^verbatim>\<open>btnInstance\<close> and \<^verbatim>\<open>btnPortRead\<close>.\<close>

record 'w btn_globals =
  btnAmount :: uint8_t
  btnInstance :: "btnInstance_t list option"
  btnPortRead :: "'w portReadCallback_t option"

text \<open>A call of one of the three weak functions, with the button code it was given.\<close>

datatype btn_weak_call =
  Button_ShortRelease uint8_t | Button_LongPress uint8_t | Button_LongRelease uint8_t

definition BTN_PROCESSING_TIME_MS :: nat where
  "BTN_PROCESSING_TIME_MS = 10"

definition BTN_DEBOUNCE_TIME_MS :: nat where
  "BTN_DEBOUNCE_TIME_MS = 20"

definition BTN_LONG_PRESS_TIME_MS :: nat where
  "BTN_LONG_PRESS_TIME_MS = 1000"

definition BTN_DEBOUNCE_TIME_v1 :: nat where
  "BTN_DEBOUNCE_TIME_v1 = BTN_DEBOUNCE_TIME_MS div BTN_PROCESSING_TIME_MS"

definition BTN_LONG_PRESS_TIME_v1 :: nat where
  "BTN_LONG_PRESS_TIME_v1 = BTN_LONG_PRESS_TIME_MS div BTN_PROCESSING_TIME_MS"

text \<open>
  The first \<^verbatim>\<open>Button_Init\<close> checks nothing and returns nothing. Its loop resets the same
  four fields as the current one; with a count above zero, a null array or an array
  shorter than the count is undefined behaviour.
\<close>

definition Button_Init_instance_v1 :: "btnInstance_t \<Rightarrow> btnInstance_t" where
  "Button_Init_instance_v1 b =
     b\<lparr>locked_v1 := False, longCount := 0, lockCount := 0, prewState := BTN_STATE_NONE\<rparr>"

function Button_Init_loop_v1 ::
  "uint8_t \<Rightarrow> uint8_t \<Rightarrow> btnInstance_t list \<Rightarrow> btnInstance_t list option" where
  "Button_Init_loop_v1 amount keyNumber insts =
     (if keyNumber < amount then
        (if unat keyNumber < length insts then
           Button_Init_loop_v1 amount (keyNumber + 1)
             (insts[unat keyNumber := Button_Init_instance_v1 (insts ! unat keyNumber)])
         else None)
      else Some insts)"
  by pat_completeness auto
termination
proof (relation "measure (\<lambda>(amount, keyNumber, insts). unat amount - unat keyNumber)")
  fix amount keyNumber :: uint8_t and insts :: "btnInstance_t list"
  assume "keyNumber < amount"
  then have lt: "unat keyNumber < unat amount"
    by (simp add: word_less_nat_alt)
  have "unat amount < 256"
    using unsigned_less [of amount, where ?'a = nat] by simp
  with lt have "unat (keyNumber + 1) = Suc (unat keyNumber)"
    by (simp add: unat_word_ariths)
  with lt show
    "((amount, keyNumber + 1,
       insts[unat keyNumber := Button_Init_instance_v1 (insts ! unat keyNumber)]),
      (amount, keyNumber, insts))
       \<in> measure (\<lambda>(amount, keyNumber, insts). unat amount - unat keyNumber)"
    by simp
qed simp

declare Button_Init_loop_v1.simps [simp del]

definition Button_Init_v1 ::
  "btnInstance_t list option \<Rightarrow> 'w portReadCallback_t option \<Rightarrow> uint8_t
     \<Rightarrow> 'w btn_globals option" where
  "Button_Init_v1 btnInstanceArray callback amount =
     (if 0 < amount then
        (case btnInstanceArray of
           None \<Rightarrow> None
         | Some insts \<Rightarrow>
             (case Button_Init_loop_v1 amount 0 insts of
                None \<Rightarrow> None
              | Some insts' \<Rightarrow>
                  Some \<lparr>btnAmount = amount, btnInstance = Some insts',
                        btnPortRead = callback\<rparr>))
      else Some \<lparr>btnAmount = amount, btnInstance = btnInstanceArray,
                 btnPortRead = callback\<rparr>)"

text \<open>One iteration of the \<^verbatim>\<open>while\<close> loop of the first \<^verbatim>\<open>Button_Update\<close>.\<close>

definition Button_Update_pressed_v1 ::
  "uint8_t \<Rightarrow> btnInstance_t \<Rightarrow> btnInstance_t \<times> btn_weak_call list" where
  "Button_Update_pressed_v1 keyNumber b =
     (let b1 = (if \<not> locked_v1 b then
                  (let bi = b\<lparr>lockCount := lockCount b + 1\<rparr>
                   in if BTN_DEBOUNCE_TIME_v1 \<le> unat (lockCount bi)
                      then bi\<lparr>locked_v1 := True\<rparr> else bi)
                else b);
          (b2, cs) = (if locked_v1 b1 \<and> prewState b1 = BTN_STATE_SHORT then
                        (let bi = b1\<lparr>longCount := longCount b1 + 1\<rparr>
                         in if BTN_LONG_PRESS_TIME_v1 \<le> unat (longCount bi)
                            then (bi\<lparr>state := BTN_STATE_LONG\<rparr>,
                                  if unat (longCount bi) = BTN_LONG_PRESS_TIME_v1
                                  then [Button_LongPress keyNumber] else [])
                            else (bi, []))
                      else (b1, []))
      in (b2\<lparr>prewState := BTN_STATE_SHORT\<rparr>, cs))"

definition Button_Update_released_v1 ::
  "uint8_t \<Rightarrow> btnInstance_t \<Rightarrow> btnInstance_t \<times> btn_weak_call list" where
  "Button_Update_released_v1 keyNumber b =
     (if locked_v1 b then
        (if lockCount b \<noteq> 0 then (b\<lparr>lockCount := lockCount b - 1\<rparr>, [])
         else
           (let b1 = b\<lparr>locked_v1 := False\<rparr> in
            if unat (longCount b1) < BTN_LONG_PRESS_TIME_v1 then
              (let b2 = b1\<lparr>state := BTN_STATE_SHORT\<rparr> in
               if state b2 = BTN_STATE_SHORT \<and> lockCount b2 = 0
               then (b2, [Button_ShortRelease keyNumber]) else (b2, []))
            else
              (if state b1 = BTN_STATE_LONG
               then (b1, [Button_LongRelease keyNumber]) else (b1, []))))
      else (b\<lparr>longCount := 0\<rparr>, []))"

definition Button_Update_key_v1 ::
  "'w btn_globals \<Rightarrow> 'w \<Rightarrow> uint8_t \<Rightarrow> btnInstance_t
     \<Rightarrow> (btnInstance_t \<times> btn_weak_call list) option" where
  "Button_Update_key_v1 g w keyNumber b =
     (case btnPortRead g of
        None \<Rightarrow> None
      | Some rd \<Rightarrow>
          (let btnNowPressed =
                 (if rd w (port_v1 b) (pin_v1 b) then BTN_STATE_SHORT else BTN_STATE_NONE)
           in if btnNowPressed = BTN_STATE_SHORT
              then Some (Button_Update_pressed_v1 keyNumber b)
              else if btnNowPressed = BTN_STATE_NONE
              then Some (Button_Update_released_v1 keyNumber b)
              else Some (b, [])))"

function Button_Update_loop_v1 ::
  "'w btn_globals \<Rightarrow> 'w \<Rightarrow> uint8_t \<Rightarrow> btnInstance_t list \<Rightarrow> btn_weak_call list
     \<Rightarrow> (btnInstance_t list \<times> btn_weak_call list) option" where
  "Button_Update_loop_v1 g w keyNumber insts cs =
     (if keyNumber < btnAmount g then
        (if unat keyNumber < length insts then
           (case Button_Update_key_v1 g w keyNumber (insts ! unat keyNumber) of
              None \<Rightarrow> None
            | Some (b', cs') \<Rightarrow>
                Button_Update_loop_v1 g w (keyNumber + 1) (insts[unat keyNumber := b'])
                  (cs @ cs'))
         else None)
      else Some (insts, cs))"
  by pat_completeness auto
termination
proof (relation "measure (\<lambda>(g, w, keyNumber, insts, cs). unat (btnAmount g) - unat keyNumber)")
  fix g :: "'w btn_globals" and w :: 'w and keyNumber :: uint8_t
    and insts :: "btnInstance_t list" and cs cs' :: "btn_weak_call list" and b' :: btnInstance_t
  assume "keyNumber < btnAmount g"
  then have lt: "unat keyNumber < unat (btnAmount g)"
    by (simp add: word_less_nat_alt)
  have "unat (btnAmount g) < 256"
    using unsigned_less [of "btnAmount g", where ?'a = nat] by simp
  with lt have "unat (keyNumber + 1) = Suc (unat keyNumber)"
    by (simp add: unat_word_ariths)
  with lt show "((g, w, keyNumber + 1, insts[unat keyNumber := b'], cs @ cs'),
                 (g, w, keyNumber, insts, cs))
                 \<in> measure (\<lambda>(g, w, keyNumber, insts, cs). unat (btnAmount g) - unat keyNumber)"
    by simp
qed simp

declare Button_Update_loop_v1.simps [simp del]

text \<open>
  The first \<^verbatim>\<open>Button_Update\<close>. With \<^verbatim>\<open>btnAmount\<close> zero the loop does not run and nothing is
  dereferenced; otherwise a null \<^verbatim>\<open>btnInstance\<close> is undefined behaviour.
\<close>

definition Button_Update_v1 ::
  "'w btn_globals \<Rightarrow> 'w \<Rightarrow> ('w btn_globals \<times> btn_weak_call list) option" where
  "Button_Update_v1 g w =
     (if 0 < btnAmount g then
        (case btnInstance g of
           None \<Rightarrow> None
         | Some insts \<Rightarrow>
             (case Button_Update_loop_v1 g w 0 insts [] of
                None \<Rightarrow> None
              | Some (insts', cs) \<Rightarrow> Some (g\<lparr>btnInstance := Some insts'\<rparr>, cs)))
      else Some (g, []))"

text \<open>
  The first \<^verbatim>\<open>Button_EventGet\<close> indexes the array with the code it is given, without a
  look at \<^verbatim>\<open>btnAmount\<close>; an index beyond the array is undefined behaviour.
\<close>

definition Button_EventGet_v1 :: "'w btn_globals \<Rightarrow> uint8_t \<Rightarrow> btn_state_t option" where
  "Button_EventGet_v1 g btnCode =
     (case btnInstance g of
        None \<Rightarrow> None
      | Some insts \<Rightarrow>
          if unat btnCode < length insts then Some (state (insts ! unat btnCode)) else None)"


section \<open>The caller's side\<close>

text \<open>
  What a successful \<^verbatim>\<open>Button_Init\<close> establishes and no later call changes: the pin-read
  pointer is set, the processing period is not zero, and the caller's array holds at least
  \<open>count\<close> instances.
\<close>

definition Button_ready :: "'w btn_init_t \<Rightarrow> bool" where
  "Button_ready t \<longleftrightarrow>
     port_read t \<noteq> None \<and> process_time_ms t \<noteq> 0 \<and> unat (count t) \<le> length (instance_arr t)"

text \<open>
  The periodic caller: one \<^verbatim>\<open>Button_Update\<close> per tick, the worlds of the ticks given in
  order. The calls of all ticks are collected in order.
\<close>

fun Button_Update_ticks ::
  "'w btn_init_t option \<Rightarrow> 'w list \<Rightarrow> ('w btn_init_t option \<times> btn_call list) option" where
  "Button_Update_ticks this [] = Some (this, [])"
| "Button_Update_ticks this (w # ws) =
     (case Button_Update this w of
        None \<Rightarrow> None
      | Some (this', cs) \<Rightarrow>
          (case Button_Update_ticks this' ws of
             None \<Rightarrow> None
           | Some (this'', cs') \<Rightarrow> Some (this'', cs @ cs')))"

text \<open>
  A caller that, after the first initialization, either ticks or initializes again over
  the storage the engine is bound to (with any configuration and count).
\<close>

datatype 'w btn_op = Op_Update 'w | Op_Init "'w btn_init_t option" uint8_t

fun Button_op :: "'w btn_init_t \<Rightarrow> 'w btn_op \<Rightarrow> 'w btn_init_t option" where
  "Button_op t (Op_Update w) =
     (case Button_Update (Some t) w of
        Some (Some t', cs) \<Rightarrow> Some t'
      | _ \<Rightarrow> None)"
| "Button_op t (Op_Init init cnt) =
     (case Button_Init init (Some (instance_arr t)) cnt (Some t) of
        Some (r, Some t') \<Rightarrow> Some t'
      | _ \<Rightarrow> None)"

fun Button_ops :: "'w btn_init_t \<Rightarrow> 'w btn_op list \<Rightarrow> 'w btn_init_t option" where
  "Button_ops t [] = Some t"
| "Button_ops t (x # xs) =
     (case Button_op t x of None \<Rightarrow> None | Some t' \<Rightarrow> Button_ops t' xs)"

subsection \<open>Fixtures of the unit tests\<close>

text \<open>
  The world of the unit tests is the timer counter that their pin-read functions consult.
  The three callbacks of the tests are told apart by a number each.
\<close>

definition test_single_button_port_read :: "uint16_t port_read_cb_t" where
  "test_single_button_port_read counter a_port a_pin =
     (if 10 \<le> counter \<and> counter \<le> 40 then 1
      else if 1000 \<le> counter \<and> counter \<le> 2400 then 1
      else 0)"

definition btn_ev_short_release :: btn_ev_cb_t where
  "btn_ev_short_release = 1"

definition btn_ev_long_press :: btn_ev_cb_t where
  "btn_ev_long_press = 2"

definition btn_ev_long_release :: btn_ev_cb_t where
  "btn_ev_long_release = 3"

text \<open>\<^verbatim>\<open>btn_inst\<close> and \<^verbatim>\<open>btn_init\<close> of \<^verbatim>\<open>test_single_button_press\<close>.\<close>

definition single_btn_inst :: btn_instance_t where
  "single_btn_inst =
     \<lparr>act = BTN_STATE_NONE, prew = BTN_STATE_NONE, locked = False, lock_count = 0,
      long_count = 0, long_press_time_ms = 1000, port = 0xdeadbeaf, pin = 13\<rparr>"

definition single_btn_init :: "uint16_t btn_init_t" where
  "single_btn_init =
     \<lparr>instance_arr = [], count = 0, process_time_ms = 10, debounce_time_ms = 20,
      long_press_def_ms = 0, port_read = Some test_single_button_port_read,
      short_release = Some btn_ev_short_release, long_release = Some btn_ev_long_release,
      long_press = Some btn_ev_long_press\<rparr>"

text \<open>
  The same engine after \<^verbatim>\<open>Button_Init(&btn_init, &btn_inst, 1)\<close>, as the first theorem on
  the fixtures shows, and a variant whose button has a long-press time of 30 ms (three
  ticks).
\<close>

definition single_engine :: "uint16_t btn_init_t" where
  "single_engine =
     single_btn_init\<lparr>instance_arr := [single_btn_inst], count := 1, long_press_def_ms := 1000\<rparr>"

definition quick_engine :: "uint16_t btn_init_t" where
  "quick_engine =
     single_engine\<lparr>instance_arr := [single_btn_inst\<lparr>long_press_time_ms := 30\<rparr>]\<rparr>"

text \<open>
  That button held down: locked by the debounce, with the given counters and active state.
\<close>

definition held_btn :: "uint8_t \<Rightarrow> uint16_t \<Rightarrow> btn_state_t \<Rightarrow> btn_instance_t" where
  "held_btn lk lg a =
     single_btn_inst\<lparr>act := a, prew := BTN_STATE_SHORT, locked := True, lock_count := lk,
       long_count := lg, long_press_time_ms := 30\<rparr>"

definition held_engine :: "uint8_t \<Rightarrow> uint16_t \<Rightarrow> btn_state_t \<Rightarrow> uint16_t btn_init_t" where
  "held_engine lk lg a = single_engine\<lparr>instance_arr := [held_btn lk lg a]\<rparr>"

text \<open>\<^verbatim>\<open>test_multi_button_press\<close>: two buttons on the pins 13 and 5.\<close>

definition test_multi_button_port_read :: "uint16_t port_read_cb_t" where
  "test_multi_button_port_read counter a_port a_pin =
     (if a_pin = 13 \<and> 10 \<le> counter \<and> counter \<le> 40 then 1
      else if a_pin = 5 \<and> 30 \<le> counter \<and> counter \<le> 50 then 1
      else 0)"

definition btn_ev_short_release_2 :: btn_ev_cb_t where
  "btn_ev_short_release_2 = 4"

definition multi_btn_inst :: "btn_instance_t list" where
  "multi_btn_inst =
     [\<lparr>act = BTN_STATE_NONE, prew = BTN_STATE_NONE, locked = False, lock_count = 0,
       long_count = 0, long_press_time_ms = 0, port = 0xdeadbeaf, pin = 13\<rparr>,
      \<lparr>act = BTN_STATE_NONE, prew = BTN_STATE_NONE, locked = False, lock_count = 0,
       long_count = 0, long_press_time_ms = 0, port = 0x12345678, pin = 5\<rparr>]"

definition multi_btn_init :: "uint16_t btn_init_t" where
  "multi_btn_init =
     \<lparr>instance_arr = [], count = 0, process_time_ms = 0, debounce_time_ms = 0,
      long_press_def_ms = 0, port_read = Some test_multi_button_port_read,
      short_release = Some btn_ev_short_release_2, long_release = None,
      long_press = None\<rparr>"

text \<open>\<^verbatim>\<open>btn_inst\<close> of \<^verbatim>\<open>test_init_defaults\<close>: the second button has its own 2050 ms.\<close>

definition defaults_btn_inst :: "btn_instance_t list" where
  "defaults_btn_inst =
     [\<lparr>act = BTN_STATE_NONE, prew = BTN_STATE_NONE, locked = False, lock_count = 0,
       long_count = 0, long_press_time_ms = 0, port = 0xdeadbeaf, pin = 13\<rparr>,
      \<lparr>act = BTN_STATE_NONE, prew = BTN_STATE_NONE, locked = False, lock_count = 0,
       long_count = 0, long_press_time_ms = 2050, port = 0x12345678, pin = 5\<rparr>]"

text \<open>
  The two buttons of \<^verbatim>\<open>test_multi_button_press\<close> at rest, with the given active state
  and previous raw states, and the engine of that test once initialized over a storage with
  a count.
\<close>

definition multi_btns :: "btn_state_t \<Rightarrow> btn_state_t \<Rightarrow> btn_state_t \<Rightarrow> btn_instance_t list" where
  "multi_btns a p0 p1 =
     [\<lparr>act = a, prew = p0, locked = False, lock_count = 0,
       long_count = 0, long_press_time_ms = 1000, port = 0xdeadbeaf, pin = 13\<rparr>,
      \<lparr>act = a, prew = p1, locked = False, lock_count = 0,
       long_count = 0, long_press_time_ms = 1000, port = 0x12345678, pin = 5\<rparr>]"

definition multi_engine :: "btn_instance_t list \<Rightarrow> uint8_t \<Rightarrow> uint16_t btn_init_t" where
  "multi_engine insts cnt =
     multi_btn_init\<lparr>instance_arr := insts, count := cnt, process_time_ms := 10,
       debounce_time_ms := 20, long_press_def_ms := 1000\<rparr>"

text \<open>
  The two buttons of \<^verbatim>\<open>test_multi_button_press\<close> after the ticks at 0 to 70 ms: the first
  has been released and holds Short, the second is locked with its release debounced and
  not yet finalized.
\<close>

definition multi_at_70 :: "btn_instance_t list" where
  "multi_at_70 =
     [\<lparr>act = BTN_STATE_SHORT, prew = BTN_STATE_SHORT, locked = False, lock_count = 0,
       long_count = 3, long_press_time_ms = 1000, port = 0xdeadbeaf, pin = 13\<rparr>,
      \<lparr>act = BTN_STATE_NONE, prew = BTN_STATE_SHORT, locked = True, lock_count = 0,
       long_count = 2, long_press_time_ms = 1000, port = 0x12345678, pin = 5\<rparr>]"

section \<open>The loops\<close>

lemma word8_succ: "(i::uint8_t) < c \<Longrightarrow> unat (i + 1) = Suc (unat i)"
proof -
  assume "i < c"
  then have lt: "unat i < unat c"
    by (simp add: word_less_nat_alt)
  have "unat c < 256"
    using unsigned_less [of c, where ?'a = nat] by simp
  with lt show ?thesis
    by (simp add: unat_word_ariths)
qed

lemma word8_succ_less: "(i::uint8_t) < c \<Longrightarrow> i < i + 1"
  by (simp add: word_less_nat_alt word8_succ)

subsection \<open>The calls of one iteration carry its button code\<close>

lemma invoke_code: "c \<in> set (invoke cb key) \<Longrightarrow> snd c = key"
  by (auto simp: invoke_def split: option.splits)

lemma Button_Update_pressed_code:
  "Button_Update_pressed this key b = Some (b', cs) \<Longrightarrow> c \<in> set cs \<Longrightarrow> snd c = key"
  by (auto simp: Button_Update_pressed_def Let_def dest: invoke_code
           split: if_splits bind_splits prod.splits)

lemma Button_Update_released_code:
  "Button_Update_released this key b = Some (b', cs) \<Longrightarrow> c \<in> set cs \<Longrightarrow> snd c = key"
  by (auto simp: Button_Update_released_def Let_def dest: invoke_code
           split: if_splits bind_splits)

lemma Button_Update_key_code:
  "Button_Update_key this w key b = Some (b', cs) \<Longrightarrow> c \<in> set cs \<Longrightarrow> snd c = key"
  by (auto simp: Button_Update_key_def Let_def
           dest: Button_Update_pressed_code Button_Update_released_code
           split: option.splits if_splits)

lemma Button_Update_key_filter_other:
  "Button_Update_key this w key b = Some (b', cs) \<Longrightarrow> k \<noteq> key
     \<Longrightarrow> filter (\<lambda>c. snd c = k) cs = []"
  by (auto simp: filter_empty_conv dest: Button_Update_key_code)

lemma Button_Update_key_filter_same:
  "Button_Update_key this w key b = Some (b', cs) \<Longrightarrow> filter (\<lambda>c. snd c = key) cs = cs"
  by (auto simp: filter_id_conv dest: Button_Update_key_code)

subsection \<open>An iteration is defined once the engine is initialized\<close>

lemma Button_Update_pressed_total:
  "process_time_ms this \<noteq> 0 \<Longrightarrow> \<exists>r. Button_Update_pressed this key b = Some r"
  by (simp add: Button_Update_pressed_def BTN_DEBOUNCE_TIME_def BTN_LONG_PRESS_TIME_def Let_def)

lemma Button_Update_released_total:
  "process_time_ms this \<noteq> 0 \<Longrightarrow> \<exists>r. Button_Update_released this key b = Some r"
  by (simp add: Button_Update_released_def BTN_LONG_PRESS_TIME_def Let_def)

lemma Button_Update_key_total:
  "port_read this = Some rd \<Longrightarrow> process_time_ms this \<noteq> 0
     \<Longrightarrow> \<exists>r. Button_Update_key this w key b = Some r"
  using Button_Update_pressed_total [of this key b] Button_Update_released_total [of this key b]
  by (auto simp: Button_Update_key_def Let_def)

subsection \<open>The while loop of Button\_Update\<close>

text \<open>An unfolding of the loop at a key below the count.\<close>

lemma Button_Update_loop_step:
  assumes "Button_Update_loop this w key insts cs = Some (insts', cs')" and "key < count this"
  obtains b1 c1 where "unat key < length insts"
    and "Button_Update_key this w key (insts ! unat key) = Some (b1, c1)"
    and "Button_Update_loop this w (key + 1) (insts[unat key := b1]) (cs @ c1)
         = Some (insts', cs')"
  using assms
  by (auto simp: Button_Update_loop.simps [of this w key] split: if_splits option.splits)

lemma Button_Update_loop_stop:
  "\<not> key < count this \<Longrightarrow> Button_Update_loop this w key insts cs = Some (insts, cs)"
  by (simp add: Button_Update_loop.simps [of this w key])

text \<open>The loop leaves the instances below its start and their calls alone.\<close>

lemma Button_Update_loop_below:
  "Button_Update_loop this w key insts cs = Some (insts', cs') \<Longrightarrow> k < unat key
     \<Longrightarrow> insts' ! k = insts ! k"
proof (induction this w key insts cs rule: Button_Update_loop.induct)
  case (1 this w key insts cs)
  show ?case
  proof (cases "key < count this")
    case False
    with "1.prems" show ?thesis
      by (simp add: Button_Update_loop_stop)
  next
    case True
    from "1.prems"(1) True obtain b1 c1 where len: "unat key < length insts"
      and body: "Button_Update_key this w key (insts ! unat key) = Some (b1, c1)"
      and rest: "Button_Update_loop this w (key + 1) (insts[unat key := b1]) (cs @ c1)
                 = Some (insts', cs')"
      by (rule Button_Update_loop_step)
    from "1.prems"(2) word8_succ [OF True] have "k < unat (key + 1)"
      by simp
    from "1.IH" [OF True len body refl rest this] "1.prems"(2) show ?thesis
      by simp
  qed
qed

lemma Button_Update_loop_calls_below:
  "Button_Update_loop this w key insts cs = Some (insts', cs') \<Longrightarrow> k0 < key
     \<Longrightarrow> filter (\<lambda>c. snd c = k0) cs' = filter (\<lambda>c. snd c = k0) cs"
proof (induction this w key insts cs rule: Button_Update_loop.induct)
  case (1 this w key insts cs)
  show ?case
  proof (cases "key < count this")
    case False
    with "1.prems" show ?thesis
      by (simp add: Button_Update_loop_stop)
  next
    case True
    from "1.prems"(1) True obtain b1 c1 where len: "unat key < length insts"
      and body: "Button_Update_key this w key (insts ! unat key) = Some (b1, c1)"
      and rest: "Button_Update_loop this w (key + 1) (insts[unat key := b1]) (cs @ c1)
                 = Some (insts', cs')"
      by (rule Button_Update_loop_step)
    from "1.prems"(2) have ne: "k0 \<noteq> key"
      by auto
    from "1.prems"(2) word8_succ_less [OF True] have lt: "k0 < key + 1"
      by simp
    from "1.IH" [OF True len body refl rest lt] Button_Update_key_filter_other [OF body ne]
    show ?thesis
      by simp
  qed
qed

lemma Button_Update_loop_length:
  "Button_Update_loop this w key insts cs = Some (insts', cs') \<Longrightarrow> length insts' = length insts"
proof (induction this w key insts cs rule: Button_Update_loop.induct)
  case (1 this w key insts cs)
  show ?case
  proof (cases "key < count this")
    case False
    with "1.prems" show ?thesis
      by (simp add: Button_Update_loop_stop)
  next
    case True
    from "1.prems"(1) True obtain b1 c1 where len: "unat key < length insts"
      and body: "Button_Update_key this w key (insts ! unat key) = Some (b1, c1)"
      and rest: "Button_Update_loop this w (key + 1) (insts[unat key := b1]) (cs @ c1)
                 = Some (insts', cs')"
      by (rule Button_Update_loop_step)
    from "1.IH" [OF True len body refl rest] show ?thesis
      by simp
  qed
qed

text \<open>
  Every button from the start of the loop up to the count is advanced by exactly one
  iteration, and the calls with its code are the calls of that iteration.
\<close>

lemma Button_Update_loop_at:
  "Button_Update_loop this w key insts cs = Some (insts', cs') \<Longrightarrow> key \<le> k0
     \<Longrightarrow> k0 < count this
     \<Longrightarrow> \<exists>b' c. Button_Update_key this w k0 (insts ! unat k0) = Some (b', c)
           \<and> insts' ! unat k0 = b'
           \<and> filter (\<lambda>x. snd x = k0) cs' = filter (\<lambda>x. snd x = k0) cs @ c"
proof (induction this w key insts cs rule: Button_Update_loop.induct)
  case (1 this w key insts cs)
  from "1.prems" have below: "key < count this"
    by simp
  from "1.prems"(1) below obtain b1 c1 where len: "unat key < length insts"
    and body: "Button_Update_key this w key (insts ! unat key) = Some (b1, c1)"
    and rest: "Button_Update_loop this w (key + 1) (insts[unat key := b1]) (cs @ c1)
               = Some (insts', cs')"
    by (rule Button_Update_loop_step)
  show ?case
  proof (cases "key = k0")
    case True
    from word8_succ [OF below] have "unat key < unat (key + 1)"
      by simp
    from Button_Update_loop_below [OF rest this]
      Button_Update_loop_calls_below [OF rest word8_succ_less [OF below]]
      True len body Button_Update_key_filter_same [OF body]
    show ?thesis
      by simp
  next
    case False
    with "1.prems"(2) have lt: "key < k0"
      by simp
    then have "unat (key + 1) \<le> unat k0"
      using word8_succ [OF lt] by (simp add: word_less_nat_alt)
    then have le: "key + 1 \<le> k0"
      by (simp add: word_le_nat_alt)
    from False have ne': "unat key \<noteq> unat k0"
      by (simp add: word_unat_eq_iff)
    from "1.IH" [OF below len body refl rest le "1.prems"(3)] ne'
      Button_Update_key_filter_other [OF body, of k0] False
    show ?thesis
      by auto
  qed
qed

lemma Button_Update_loop_total:
  "port_read this = Some rd \<Longrightarrow> process_time_ms this \<noteq> 0
     \<Longrightarrow> unat (count this) \<le> length insts
     \<Longrightarrow> \<exists>r. Button_Update_loop this w key insts cs = Some r"
proof (induction this w key insts cs rule: Button_Update_loop.induct)
  case (1 this w key insts cs)
  show ?case
  proof (cases "key < count this")
    case False
    then show ?thesis
      by (simp add: Button_Update_loop_stop)
  next
    case True
    with "1.prems"(3) have len: "unat key < length insts"
      by (simp add: word_less_nat_alt)
    from Button_Update_key_total [OF "1.prems"(1,2)] obtain b1 c1 where
      body: "Button_Update_key this w key (insts ! unat key) = Some (b1, c1)"
      by fastforce
    from "1.IH" [OF True len body refl "1.prems"(1,2)] "1.prems"(3)
    obtain r where "Button_Update_loop this w (key + 1) (insts[unat key := b1]) (cs @ c1) = Some r"
      by auto
    with True len body show ?thesis
      by (simp add: Button_Update_loop.simps [of this w key])
  qed
qed

text \<open>
  \<^verbatim>\<open>Button_Update\<close> on an initialized engine returns, changes nothing but the storage,
  and advances the button \<open>key\<close> by one iteration.
\<close>

lemma Button_Update_at:
  assumes ready: "Button_ready t" and key: "key < count t"
  shows "\<exists>insts cs b' c.
           Button_Update (Some t) w = Some (Some (t\<lparr>instance_arr := insts\<rparr>), cs)
           \<and> length insts = length (instance_arr t)
           \<and> Button_Update_key t w key (instance_arr t ! unat key) = Some (b', c)
           \<and> insts ! unat key = b'
           \<and> filter (\<lambda>x. snd x = key) cs = c"
proof -
  from ready obtain rd where rd: "port_read t = Some rd"
    by (auto simp: Button_ready_def)
  from ready have pt: "process_time_ms t \<noteq> 0" and len: "unat (count t) \<le> length (instance_arr t)"
    by (simp_all add: Button_ready_def)
  from Button_Update_loop_total [OF rd pt len, of w 0 "[]"] obtain insts cs where
    loop: "Button_Update_loop t w 0 (instance_arr t) [] = Some (insts, cs)"
    by fastforce
  from Button_Update_loop_at [OF loop _ key] obtain b' c where
    "Button_Update_key t w key (instance_arr t ! unat key) = Some (b', c)"
    "insts ! unat key = b'" "filter (\<lambda>x. snd x = key) cs = c"
    by auto
  with loop Button_Update_loop_length [OF loop] show ?thesis
    by (intro exI [of _ insts] exI [of _ cs] exI [of _ b'] exI [of _ c])
       (simp add: Button_Update_def)
qed

lemma Button_Update_total:
  assumes ready: "Button_ready t"
  shows "\<exists>insts cs. Button_Update (Some t) w = Some (Some (t\<lparr>instance_arr := insts\<rparr>), cs)
           \<and> length insts = length (instance_arr t)"
proof -
  from ready obtain rd where rd: "port_read t = Some rd"
    by (auto simp: Button_ready_def)
  from ready have pt: "process_time_ms t \<noteq> 0" and len: "unat (count t) \<le> length (instance_arr t)"
    by (simp_all add: Button_ready_def)
  from Button_Update_loop_total [OF rd pt len, of w 0 "[]"] obtain insts cs where
    loop: "Button_Update_loop t w 0 (instance_arr t) [] = Some (insts, cs)"
    by fastforce
  with Button_Update_loop_length [OF loop] show ?thesis
    by (intro exI [of _ insts] exI [of _ cs]) (simp add: Button_Update_def)
qed

lemma Button_ready_storage [simp]:
  "length insts = length (instance_arr t) \<Longrightarrow> Button_ready (t\<lparr>instance_arr := insts\<rparr>) = Button_ready t"
  by (simp add: Button_ready_def)


section \<open>One iteration, case by case\<close>

lemma Button_Update_key_release_debounce:
  assumes "port_read t = Some rd" and "locked b" and "rd w (port b) (pin b) = 0"
    and "lock_count b \<noteq> 0"
  shows "Button_Update_key t w key b = Some (b\<lparr>lock_count := lock_count b - 1\<rparr>, [])"
  using assms by (simp add: Button_Update_key_def Button_Update_released_def)

lemma Button_Update_key_release_final:
  assumes "port_read t = Some rd" and "locked b" and "rd w (port b) (pin b) = 0"
    and "lock_count b = 0" and "BTN_LONG_PRESS_TIME t b = Some thr"
  shows "Button_Update_key t w key b =
           (if uint (long_count b) < thr
            then Some (b\<lparr>locked := False, act := BTN_STATE_SHORT\<rparr>, invoke (short_release t) key)
            else Some (b\<lparr>locked := False\<rparr>,
                       if act b = BTN_STATE_LONG then invoke (long_release t) key else []))"
  using assms
  by (simp add: Button_Update_key_def Button_Update_released_def BTN_LONG_PRESS_TIME_def
           split: if_splits)


lemma Button_Update_key_long:
  assumes "port_read t = Some rd" and "locked b" and "prew b = BTN_STATE_SHORT"
    and "rd w (port b) (pin b) \<noteq> 0" and "BTN_LONG_PRESS_TIME t b = Some thr"
  shows "Button_Update_key t w key b =
           (if thr \<le> uint (long_count b + 1)
            then Some (b\<lparr>long_count := long_count b + 1, act := BTN_STATE_LONG\<rparr>,
                       invoke (long_press t) key)
            else Some (b\<lparr>long_count := long_count b + 1\<rparr>, []))"
  using assms
  by (simp add: Button_Update_key_def Button_Update_pressed_def BTN_LONG_PRESS_TIME_def
           split: if_splits)

section \<open>The fixtures\<close>

lemma fixtures_init:
  "Button_Init (Some single_btn_init) (Some [single_btn_inst]) 1 None
     = Some (0, Some single_engine)"
  "Button_Init (Some single_btn_init) (Some [single_btn_inst\<lparr>long_press_time_ms := 30\<rparr>]) 1 None
     = Some (0, Some quick_engine)"
  "Button_Init (Some multi_btn_init) (Some multi_btn_inst) 2 None
     = Some (0, Some (multi_engine (multi_btns BTN_STATE_NONE BTN_STATE_NONE BTN_STATE_NONE) 2))"
  by code_simp+

lemma multi_at_70_reached:
  "Button_Update_ticks
     (Some (multi_engine (multi_btns BTN_STATE_NONE BTN_STATE_NONE BTN_STATE_NONE) 2))
     [0, 10, 20, 30, 40, 50, 60, 70]
   = Some (Some (multi_engine multi_at_70 2), [(btn_ev_short_release_2, 0)])"
  by code_simp


lemma held_engine_ready: "Button_ready (held_engine lk lg a)"
  by (simp add: Button_ready_def held_engine_def single_engine_def single_btn_init_def)

lemma held_engine_simps:
  "port_read (held_engine lk lg a) = Some test_single_button_port_read"
  "count (held_engine lk lg a) = 1"
  "instance_arr (held_engine lk lg a) = [held_btn lk lg a]"
  "short_release (held_engine lk lg a) = Some btn_ev_short_release"
  "long_release (held_engine lk lg a) = Some btn_ev_long_release"
  "long_press (held_engine lk lg a) = Some btn_ev_long_press"
  "BTN_LONG_PRESS_TIME (held_engine lk lg a) (held_btn lk' lg' a') = Some 3"
  "BTN_DEBOUNCE_TIME (held_engine lk lg a) = Some 2"
  by (simp_all add: held_engine_def single_engine_def single_btn_init_def held_btn_def
        BTN_LONG_PRESS_TIME_def BTN_DEBOUNCE_TIME_def)

lemma held_btn_simps:
  "locked (held_btn lk lg a)" "lock_count (held_btn lk lg a) = lk"
  "long_count (held_btn lk lg a) = lg" "act (held_btn lk lg a) = a"
  "prew (held_btn lk lg a) = BTN_STATE_SHORT"
  "held_btn lk lg a\<lparr>lock_count := lk'\<rparr> = held_btn lk' lg a"
  "held_btn lk lg a\<lparr>long_count := lg'\<rparr> = held_btn lk lg' a"
  "held_btn lk lg a\<lparr>act := a'\<rparr> = held_btn lk lg a'"
  by (simp_all add: held_btn_def)

lemma test_single_button_port_read_simps:
  "test_single_button_port_read 50 p q = 0"
  "test_single_button_port_read 1000 p q = 1"
  by (simp_all add: test_single_button_port_read_def)

section \<open>The claims on one tick\<close>

text \<open>
  Claim C9. A button that is locked and reads released while its \<open>lock_count\<close> is not zero
  only has its \<open>lock_count\<close> decremented by this tick: its instance is otherwise the same
  (\<open>locked\<close>, \<open>long_count\<close>, \<open>prew\<close> and \<open>act\<close> included) and no callback is called with its
  code.
\<close>

theorem Button_Update_release_debounce:
  assumes "Button_ready t" and "port_read t = Some rd" and "key < count t"
    and "b = instance_arr t ! unat key"
    and "locked b" and "rd w (port b) (pin b) = 0" and "lock_count b \<noteq> 0"
  shows "\<exists>insts cs.
           Button_Update (Some t) w = Some (Some (t\<lparr>instance_arr := insts\<rparr>), cs)
           \<and> insts ! unat key = b\<lparr>lock_count := lock_count b - 1\<rparr>
           \<and> locked (insts ! unat key) = locked b
           \<and> long_count (insts ! unat key) = long_count b
           \<and> prew (insts ! unat key) = prew b
           \<and> act (insts ! unat key) = act b
           \<and> filter (\<lambda>c. snd c = key) cs = []"
proof -
  from assms(4-7) have
    "Button_Update_key t w key (instance_arr t ! unat key)
       = Some (b\<lparr>lock_count := lock_count b - 1\<rparr>, [])"
    by (simp add: Button_Update_key_release_debounce [OF assms(2)])
  with Button_Update_at [OF assms(1,3), of w] obtain insts cs where
    "Button_Update (Some t) w = Some (Some (t\<lparr>instance_arr := insts\<rparr>), cs)"
    "insts ! unat key = b\<lparr>lock_count := lock_count b - 1\<rparr>"
    "filter (\<lambda>c. snd c = key) cs = []"
    by auto
  then show ?thesis
    by (intro exI [of _ insts] exI [of _ cs]) simp
qed

theorem Button_Update_release_debounce_witness:
  "Button_ready (held_engine 2 1 BTN_STATE_NONE)
   \<and> (0::uint8_t) < count (held_engine 2 1 BTN_STATE_NONE)
   \<and> locked (held_btn 2 1 BTN_STATE_NONE)
   \<and> lock_count (held_btn 2 1 BTN_STATE_NONE) \<noteq> 0
   \<and> (\<exists>insts cs.
         Button_Update (Some (held_engine 2 1 BTN_STATE_NONE)) 50
           = Some (Some (held_engine 2 1 BTN_STATE_NONE\<lparr>instance_arr := insts\<rparr>), cs)
         \<and> insts ! 0 = held_btn 1 1 BTN_STATE_NONE
         \<and> filter (\<lambda>c. snd c = 0) cs = [])"
  using Button_Update_release_debounce
    [of "held_engine 2 1 BTN_STATE_NONE" test_single_button_port_read 0
        "held_btn 2 1 BTN_STATE_NONE" 50]
  by (simp add: held_engine_ready held_engine_simps held_btn_simps
        test_single_button_port_read_simps) blast

text \<open>
  Claim C2. A button that is locked and reads released while its \<open>lock_count\<close> is zero is
  unlocked by this tick. If its \<open>long_count\<close> is below its long-press threshold (its
  long-press time divided by the processing period), its active state becomes Short and
  the short-release callback is called once with its code: the calls of this tick that
  carry its code are that one call, or none when no short-release callback is set.
  Otherwise its active state is kept, and the long-release callback is called once with its
  code if the active state is Long and a long-release callback is set; if the active state
  is not Long, or no callback is set, nothing is called with its code.
\<close>

theorem Button_Update_release_final:
  assumes "Button_ready t" and "port_read t = Some rd" and "key < count t"
    and "b = instance_arr t ! unat key"
    and "locked b" and "rd w (port b) (pin b) = 0" and "lock_count b = 0"
    and "thr = uint (long_press_time_ms b) div uint (process_time_ms t)"
  shows "\<exists>insts cs.
           Button_Update (Some t) w = Some (Some (t\<lparr>instance_arr := insts\<rparr>), cs)
           \<and> \<not> locked (insts ! unat key)
           \<and> (uint (long_count b) < thr \<longrightarrow>
                insts ! unat key = b\<lparr>locked := False, act := BTN_STATE_SHORT\<rparr>
                \<and> (\<forall>f. short_release t = Some f \<longrightarrow>
                       filter (\<lambda>c. snd c = key) cs = [(f, key)])
                \<and> (short_release t = None \<longrightarrow> filter (\<lambda>c. snd c = key) cs = []))
           \<and> (thr \<le> uint (long_count b) \<longrightarrow>
                insts ! unat key = b\<lparr>locked := False\<rparr>
                \<and> (\<forall>f. act b = BTN_STATE_LONG \<and> long_release t = Some f \<longrightarrow>
                       filter (\<lambda>c. snd c = key) cs = [(f, key)])
                \<and> (act b \<noteq> BTN_STATE_LONG \<or> long_release t = None \<longrightarrow>
                       filter (\<lambda>c. snd c = key) cs = []))"
proof -
  from assms(1) have "process_time_ms t \<noteq> 0"
    by (simp add: Button_ready_def)
  with assms(8) have thr: "BTN_LONG_PRESS_TIME t b = Some thr"
    by (simp add: BTN_LONG_PRESS_TIME_def)
  from assms(4-7) thr have
    "Button_Update_key t w key (instance_arr t ! unat key) =
       (if uint (long_count b) < thr
        then Some (b\<lparr>locked := False, act := BTN_STATE_SHORT\<rparr>, invoke (short_release t) key)
        else Some (b\<lparr>locked := False\<rparr>,
                   if act b = BTN_STATE_LONG then invoke (long_release t) key else []))"
    by (simp add: Button_Update_key_release_final [OF assms(2)])
  with Button_Update_at [OF assms(1,3), of w] obtain insts cs where
    "Button_Update (Some t) w = Some (Some (t\<lparr>instance_arr := insts\<rparr>), cs)"
    "Some (insts ! unat key, filter (\<lambda>c. snd c = key) cs) =
       (if uint (long_count b) < thr
        then Some (b\<lparr>locked := False, act := BTN_STATE_SHORT\<rparr>, invoke (short_release t) key)
        else Some (b\<lparr>locked := False\<rparr>,
                   if act b = BTN_STATE_LONG then invoke (long_release t) key else []))"
    by auto
  then show ?thesis
    by (intro exI [of _ insts] exI [of _ cs]) (auto simp: invoke_def split: if_splits)
qed

text \<open>
  The second button of \<^verbatim>\<open>test_multi_button_press\<close> at the tick at 80 ms: its threshold is
  100 ticks, its \<open>long_count\<close> is 2, and the short-release callback of the test is called
  with the code 1.
\<close>

theorem Button_Update_release_final_witness:
  "Button_ready (multi_engine multi_at_70 2)
   \<and> port_read (multi_engine multi_at_70 2) = Some test_multi_button_port_read
   \<and> (1 :: uint8_t) < count (multi_engine multi_at_70 2)
   \<and> locked (multi_at_70 ! 1)
   \<and> test_multi_button_port_read 80 (port (multi_at_70 ! 1)) (pin (multi_at_70 ! 1)) = 0
   \<and> lock_count (multi_at_70 ! 1) = 0
   \<and> uint (long_press_time_ms (multi_at_70 ! 1))
        div uint (process_time_ms (multi_engine multi_at_70 2)) = 100
   \<and> uint (long_count (multi_at_70 ! 1)) < 100
   \<and> short_release (multi_engine multi_at_70 2) = Some btn_ev_short_release_2
   \<and> (\<exists>insts cs.
         Button_Update (Some (multi_engine multi_at_70 2)) 80
           = Some (Some (multi_engine multi_at_70 2\<lparr>instance_arr := insts\<rparr>), cs)
         \<and> insts ! 1 = (multi_at_70 ! 1)\<lparr>locked := False, act := BTN_STATE_SHORT\<rparr>
         \<and> filter (\<lambda>c. snd c = 1) cs = [(btn_ev_short_release_2, 1)])"
proof -
  let ?t = "multi_engine multi_at_70 2"
  let ?b = "multi_at_70 ! 1"
  have ready: "Button_ready ?t"
    by (simp add: Button_ready_def multi_engine_def multi_btn_init_def multi_at_70_def)
  have h: "port_read ?t = Some test_multi_button_port_read" "(1 :: uint8_t) < count ?t"
    "?b = instance_arr ?t ! unat (1 :: uint8_t)" "locked ?b"
    "test_multi_button_port_read 80 (port ?b) (pin ?b) = 0" "lock_count ?b = 0"
    "100 = uint (long_press_time_ms ?b) div uint (process_time_ms ?t)"
    by (simp_all add: multi_engine_def multi_btn_init_def multi_at_70_def
          test_multi_button_port_read_def)
  have more: "uint (long_count ?b) < 100" "short_release ?t = Some btn_ev_short_release_2"
    by (simp_all add: multi_engine_def multi_btn_init_def multi_at_70_def)
  from Button_Update_release_final [OF ready h] more
  have "\<exists>insts cs.
         Button_Update (Some ?t) 80 = Some (Some (?t\<lparr>instance_arr := insts\<rparr>), cs)
         \<and> insts ! 1 = ?b\<lparr>locked := False, act := BTN_STATE_SHORT\<rparr>
         \<and> filter (\<lambda>c. snd c = 1) cs = [(btn_ev_short_release_2, 1)]"
    by simp blast
  with ready h(1,2,4,5,6) h(7) [symmetric] more show ?thesis
    by blast
qed


text \<open>
  The long-press path of the current \<^verbatim>\<open>Button_Update\<close>. A button that is locked, whose
  previous raw state was pressed and that reads pressed has its \<open>long_count\<close> incremented by
  this tick. On every such tick where the incremented \<open>long_count\<close> is at or above the
  long-press threshold, the active state is set to Long and the long-press callback (when
  one is set) is called with the button's code; below the threshold the active state is
  kept and nothing is called.
\<close>

lemma Button_Update_long_press:
  assumes "Button_ready t" and "port_read t = Some rd" and "key < count t"
    and "b = instance_arr t ! unat key"
    and "locked b" and "prew b = BTN_STATE_SHORT" and "rd w (port b) (pin b) \<noteq> 0"
    and "BTN_LONG_PRESS_TIME t b = Some thr"
  shows "\<exists>insts cs.
           Button_Update (Some t) w = Some (Some (t\<lparr>instance_arr := insts\<rparr>), cs)
           \<and> long_count (insts ! unat key) = long_count b + 1
           \<and> (thr \<le> uint (long_count b + 1) \<longrightarrow>
                insts ! unat key = b\<lparr>long_count := long_count b + 1, act := BTN_STATE_LONG\<rparr>
                \<and> filter (\<lambda>c. snd c = key) cs = invoke (long_press t) key)
           \<and> (uint (long_count b + 1) < thr \<longrightarrow>
                insts ! unat key = b\<lparr>long_count := long_count b + 1\<rparr>
                \<and> filter (\<lambda>c. snd c = key) cs = [])"
proof -
  from assms(4-8) have
    "Button_Update_key t w key (instance_arr t ! unat key) =
       (if thr \<le> uint (long_count b + 1)
        then Some (b\<lparr>long_count := long_count b + 1, act := BTN_STATE_LONG\<rparr>,
                   invoke (long_press t) key)
        else Some (b\<lparr>long_count := long_count b + 1\<rparr>, []))"
    by (simp add: Button_Update_key_long [OF assms(2)])
  with Button_Update_at [OF assms(1,3), of w] obtain insts cs where
    "Button_Update (Some t) w = Some (Some (t\<lparr>instance_arr := insts\<rparr>), cs)"
    "Some (insts ! unat key, filter (\<lambda>c. snd c = key) cs) =
       (if thr \<le> uint (long_count b + 1)
        then Some (b\<lparr>long_count := long_count b + 1, act := BTN_STATE_LONG\<rparr>,
                   invoke (long_press t) key)
        else Some (b\<lparr>long_count := long_count b + 1\<rparr>, []))"
    by auto
  then show ?thesis
    by (intro exI [of _ insts] exI [of _ cs]) (simp split: if_splits)
qed

text \<open>
  The threshold of the held button is three ticks. With its \<open>long_count\<close> already at 3, a
  further pressed tick takes it to 4, above the threshold, and the callback is called again.
\<close>

lemma Button_Update_long_press_example:
  "Button_ready (held_engine 2 3 BTN_STATE_LONG)
   \<and> locked (held_btn 2 3 BTN_STATE_LONG)
   \<and> prew (held_btn 2 3 BTN_STATE_LONG) = BTN_STATE_SHORT
   \<and> BTN_LONG_PRESS_TIME (held_engine 2 3 BTN_STATE_LONG) (held_btn 2 3 BTN_STATE_LONG) = Some 3
   \<and> (\<exists>insts cs.
         Button_Update (Some (held_engine 2 3 BTN_STATE_LONG)) 1000
           = Some (Some (held_engine 2 3 BTN_STATE_LONG\<lparr>instance_arr := insts\<rparr>), cs)
         \<and> insts ! 0 = held_btn 2 4 BTN_STATE_LONG
         \<and> filter (\<lambda>c. snd c = 0) cs = [(btn_ev_long_press, 0)])"
  using Button_Update_long_press
    [of "held_engine 2 3 BTN_STATE_LONG" test_single_button_port_read 0
        "held_btn 2 3 BTN_STATE_LONG" 1000 3]
  by (simp add: held_engine_ready held_engine_simps held_btn_simps
        test_single_button_port_read_simps invoke_def) blast

text \<open>
  Claim C1. For a button that is locked and whose previous raw state was pressed, the tick
  on which the incremented \<open>long_count\<close> reaches the long-press threshold sets the active
  state to Long and calls the long-press callback, and the later pressed ticks, with
  \<open>long_count\<close> above the threshold, do not call it again. The current \<^verbatim>\<open>button.c\<close> does
  not keep to the second half: on the freshly initialized button whose threshold is three
  ticks, four pressed ticks in a row end with the first call, on the tick where
  \<open>long_count\<close> reaches 3, and the fifth pressed tick, where it is 4, calls again.
\<close>

theorem Button_Update_long_press_repeats:
  "Button_Update_ticks (Some quick_engine) [1000, 1010, 1020, 1030]
     = Some (Some (held_engine 2 3 BTN_STATE_LONG), [(btn_ev_long_press, 0)])
   \<and> Button_Update_ticks (Some quick_engine) [1000, 1010, 1020, 1030, 1040]
     = Some (Some (held_engine 2 4 BTN_STATE_LONG),
             [(btn_ev_long_press, 0), (btn_ev_long_press, 0)])"
  by code_simp

text \<open>
  Claim C8. On an initialized engine the query returns None for every index at or above
  the count, and the active state of the button for every index below it.
\<close>

theorem Button_EventGet_result:
  "(count t \<le> key \<longrightarrow> Button_EventGet (Some t) key = Some BTN_STATE_NONE)
   \<and> (key < count t \<and> unat (count t) \<le> length (instance_arr t) \<longrightarrow>
        Button_EventGet (Some t) key = Some (act (instance_arr t ! unat key)))"
  by (auto simp: Button_EventGet_def word_less_nat_alt word_le_nat_alt)

theorem Button_EventGet_result_witness:
  "count (held_engine 0 0 BTN_STATE_SHORT) \<le> 3
   \<and> Button_EventGet (Some (held_engine 0 0 BTN_STATE_SHORT)) 3 = Some BTN_STATE_NONE
   \<and> 0 < count (held_engine 0 0 BTN_STATE_SHORT)
   \<and> unat (count (held_engine 0 0 BTN_STATE_SHORT))
        \<le> length (instance_arr (held_engine 0 0 BTN_STATE_SHORT))
   \<and> Button_EventGet (Some (held_engine 0 0 BTN_STATE_SHORT)) 0 = Some BTN_STATE_SHORT"
  using Button_EventGet_result [of "held_engine 0 0 BTN_STATE_SHORT" 3]
    Button_EventGet_result [of "held_engine 0 0 BTN_STATE_SHORT" 0]
  by (simp add: held_engine_simps held_btn_simps)


section \<open>The first version on the long-press path\<close>

lemma BTN_TIME_v1:
  "BTN_DEBOUNCE_TIME_v1 = 2" "BTN_LONG_PRESS_TIME_v1 = 100"
  by (simp_all add: BTN_DEBOUNCE_TIME_v1_def BTN_LONG_PRESS_TIME_v1_def BTN_DEBOUNCE_TIME_MS_def
        BTN_LONG_PRESS_TIME_MS_def BTN_PROCESSING_TIME_MS_def)

text \<open>
  In the first version the call of \<^verbatim>\<open>Button_LongPress\<close> is guarded by the equality of
  \<open>longCount\<close> and the threshold: a locked button whose previous raw state was pressed and
  that reads pressed is set to Long on every tick at or above the threshold, and the
  function is called on the tick where the incremented \<open>longCount\<close> equals it and on no
  other.
\<close>

lemma Button_Update_key_v1_long_press:
  assumes "btnPortRead g = Some rd" and "locked_v1 b" and "prewState b = BTN_STATE_SHORT"
    and "rd w (port_v1 b) (pin_v1 b)"
  shows "Button_Update_key_v1 g w keyNumber b =
           Some (if BTN_LONG_PRESS_TIME_v1 \<le> unat (longCount b + 1)
                 then b\<lparr>longCount := longCount b + 1, state := BTN_STATE_LONG\<rparr>
                 else b\<lparr>longCount := longCount b + 1\<rparr>,
                 if unat (longCount b + 1) = BTN_LONG_PRESS_TIME_v1
                 then [Button_LongPress keyNumber] else [])"
  using assms
  by (simp add: Button_Update_key_v1_def Button_Update_pressed_v1_def Let_def)

text \<open>
  The same held button in both versions, one tick after the threshold was reached: the
  first version calls nothing, the current one calls the long-press callback.
\<close>

lemma Button_Update_key_after_threshold:
  "Button_Update_key_v1
     \<lparr>btnAmount = 1, btnInstance = None, btnPortRead = Some (\<lambda>w a_port a_pin. w)\<rparr> True 0
     \<lparr>state = BTN_STATE_LONG, prewState = BTN_STATE_SHORT, locked_v1 = True, lockCount = 2,
      longCount = 100, port_v1 = 0xdeadbeaf, pin_v1 = 13\<rparr>
   = Some (\<lparr>state = BTN_STATE_LONG, prewState = BTN_STATE_SHORT, locked_v1 = True,
            lockCount = 2, longCount = 101, port_v1 = 0xdeadbeaf, pin_v1 = 13\<rparr>, [])"
  "Button_Update_key (held_engine 2 3 BTN_STATE_LONG) 1000 0 (held_btn 2 3 BTN_STATE_LONG)
   = Some (held_btn 2 4 BTN_STATE_LONG, [(btn_ev_long_press, 0)])"
  by code_simp+

text \<open>
  The first \<^verbatim>\<open>Button_EventGet\<close> returns the stored state of any instance of the array,
  whatever the count.
\<close>

lemma Button_EventGet_v1_result:
  "btnInstance g = Some insts \<Longrightarrow> unat btnCode < length insts
     \<Longrightarrow> Button_EventGet_v1 g btnCode = Some (state (insts ! unat btnCode))"
  by (simp add: Button_EventGet_v1_def)


section \<open>Button\_Init\<close>

lemma Button_Init_loop_result:
  "i \<le> cnt \<Longrightarrow> unat cnt \<le> length insts
     \<Longrightarrow> \<exists>r. Button_Init_loop this cnt i insts = Some r \<and> length r = length insts
           \<and> (\<forall>k<length insts.
                 r ! k = (if unat i \<le> k \<and> k < unat cnt
                          then Button_Init_instance this (insts ! k) else insts ! k))"
proof (induction this cnt i insts rule: Button_Init_loop.induct)
  case (1 this cnt i insts)
  show ?case
  proof (cases "i < cnt")
    case False
    with "1.prems"(1) have "unat cnt \<le> unat i"
      by (simp add: word_less_nat_alt)
    with False show ?thesis
      by (auto simp: Button_Init_loop.simps [of this cnt i])
  next
    case True
    with "1.prems"(2) have len: "unat i < length insts"
      by (simp add: word_less_nat_alt)
    let ?insts = "insts[unat i := Button_Init_instance this (insts ! unat i)]"
    have suc: "unat (i + 1) = Suc (unat i)"
      by (rule word8_succ [OF True])
    with True have le: "i + 1 \<le> cnt"
      by (simp add: word_le_nat_alt word_less_nat_alt)
    from "1.IH" [OF True len le] "1.prems"(2) obtain r where
      r: "Button_Init_loop this cnt (i + 1) ?insts = Some r" "length r = length insts"
      and nth: "\<forall>k<length insts.
                  r ! k = (if unat (i + 1) \<le> k \<and> k < unat cnt
                           then Button_Init_instance this (?insts ! k) else ?insts ! k)"
      by auto
    have "r ! k = (if unat i \<le> k \<and> k < unat cnt
                   then Button_Init_instance this (insts ! k) else insts ! k)"
      if "k < length insts" for k
    proof (cases "k = unat i")
      case True
      with nth that suc \<open>i < cnt\<close> show ?thesis
        by (simp add: word_less_nat_alt)
    next
      case False
      with nth that suc show ?thesis
        by auto
    qed
    with r True len show ?thesis
      by (simp add: Button_Init_loop.simps [of this cnt i])
  qed
qed

text \<open>
  A successful call: the result is the caller's structure with the count and the timing
  fields set, bound to the caller's array, whose first \<open>cnt\<close> instances went through
  the body of the loop.
\<close>

lemma Button_Init_success:
  assumes "port_read i \<noteq> None" and "cnt \<noteq> 0" and "unat cnt \<le> length a"
  shows "\<exists>insts.
           Button_Init (Some i) (Some a) cnt this =
             Some (0, Some (i\<lparr>instance_arr := insts,
                              count := cnt,
                              process_time_ms :=
                                (if process_time_ms i \<noteq> 0 then process_time_ms i else 10),
                              debounce_time_ms :=
                                (if debounce_time_ms i \<noteq> 0 then debounce_time_ms i else 20),
                              long_press_def_ms :=
                                (if long_press_def_ms i \<noteq> 0 then long_press_def_ms i
                                 else 1000)\<rparr>))
           \<and> length insts = length a
           \<and> (\<forall>k<length a.
                 insts ! k =
                   (if k < unat cnt
                    then (a ! k)\<lparr>locked := False, prew := BTN_STATE_NONE, long_count := 0,
                           lock_count := 0,
                           long_press_time_ms :=
                             (if long_press_time_ms (a ! k) \<noteq> 0 then long_press_time_ms (a ! k)
                              else if long_press_def_ms i \<noteq> 0 then long_press_def_ms i
                              else 1000)\<rparr>
                    else a ! k))"
proof -
  let ?t = "i\<lparr>instance_arr := a,
               count := cnt,
               process_time_ms :=
                 (if process_time_ms i \<noteq> 0 then process_time_ms i else BTN_PROCESS_DEF),
               debounce_time_ms :=
                 (if debounce_time_ms i \<noteq> 0 then debounce_time_ms i else BTN_DEBOUNCE_DEF),
               long_press_def_ms :=
                 (if long_press_def_ms i \<noteq> 0 then long_press_def_ms i
                  else BTN_LONG_PRESS_DEF)\<rparr>"
  from Button_Init_loop_result [of 0 cnt a ?t] assms(3) obtain r where
    r: "Button_Init_loop ?t cnt 0 a = Some r" "length r = length a"
    and nth: "\<forall>k<length a.
                r ! k = (if k < unat cnt then Button_Init_instance ?t (a ! k) else a ! k)"
    by auto
  from r assms(1,2) have
    "Button_Init (Some i) (Some a) cnt this = Some (0, Some (?t\<lparr>instance_arr := r\<rparr>))"
    by (simp add: Button_Init_def Let_def)
  with r(2) nth show ?thesis
    by (intro exI [of _ r])
       (simp add: Button_Init_instance_def BTN_PROCESS_DEF_def BTN_DEBOUNCE_DEF_def
          BTN_LONG_PRESS_DEF_def)
qed

text \<open>A successful call leaves the engine ready for \<^verbatim>\<open>Button_Update\<close>.\<close>

lemma Button_Init_ready:
  assumes "port_read i \<noteq> None" and "cnt \<noteq> 0" and "unat cnt \<le> length a"
  shows "\<exists>t. Button_Init (Some i) (Some a) cnt this = Some (0, Some t) \<and> Button_ready t"
proof -
  from Button_Init_success [OF assms, of this] obtain insts where
    "Button_Init (Some i) (Some a) cnt this =
       Some (0, Some (i\<lparr>instance_arr := insts,
                        count := cnt,
                        process_time_ms :=
                          (if process_time_ms i \<noteq> 0 then process_time_ms i else 10),
                        debounce_time_ms :=
                          (if debounce_time_ms i \<noteq> 0 then debounce_time_ms i else 20),
                        long_press_def_ms :=
                          (if long_press_def_ms i \<noteq> 0 then long_press_def_ms i else 1000)\<rparr>))"
    "length insts = length a"
    by blast
  with assms show ?thesis
    by (simp add: Button_ready_def)
qed

lemma Button_Init_failure:
  "init = None \<or> inst = None \<or> cnt = 0 \<or> (\<exists>i. init = Some i \<and> port_read i = None)
     \<Longrightarrow> Button_Init init inst cnt this = Some (- 1, this)"
  by (auto simp: Button_Init_def split: option.splits)

lemma Button_Init_code:
  assumes "Button_Init init inst cnt this = Some (r, this')"
  shows "r = - 1 \<and> (init = None \<or> inst = None \<or> cnt = 0 \<or> (\<exists>i. init = Some i \<and> port_read i = None))
         \<or> r = 0 \<and> \<not> (init = None \<or> inst = None \<or> cnt = 0 \<or> (\<exists>i. init = Some i \<and> port_read i = None))"
  using assms by (auto simp: Button_Init_def Let_def split: option.splits if_splits)

text \<open>
  Claim C5. \<^verbatim>\<open>Button_Init\<close> returns the error result -1, and leaves the engine as it was, if
  the configuration pointer is null, the button array pointer is null, the count is zero
  or the pin-read callback is unset. In every other case, on an array that holds the
  \<open>cnt\<close> instances, it returns 0 and binds the engine to the supplied configuration
  (callbacks kept, count set) and to the supplied array. Whenever it returns, the result is
  negative exactly in the four error cases.
\<close>

theorem Button_Init_result:
  "(init = None \<or> inst = None \<or> cnt = 0 \<or> (\<exists>i. init = Some i \<and> port_read i = None)
      \<longrightarrow> Button_Init init inst cnt this = Some (- 1, this))
   \<and> (\<forall>i a. init = Some i \<and> inst = Some a \<and> cnt \<noteq> 0 \<and> port_read i \<noteq> None
              \<and> unat cnt \<le> length a \<longrightarrow>
          (\<exists>t. Button_Init init inst cnt this = Some (0, Some t)
             \<and> count t = cnt
             \<and> port_read t = port_read i
             \<and> short_release t = short_release i
             \<and> long_release t = long_release i
             \<and> long_press t = long_press i
             \<and> length (instance_arr t) = length a
             \<and> (\<forall>k<length a. port (instance_arr t ! k) = port (a ! k)
                             \<and> pin (instance_arr t ! k) = pin (a ! k))))
   \<and> (\<forall>r this'. Button_Init init inst cnt this = Some (r, this') \<longrightarrow>
          (r < 0 \<longleftrightarrow>
             init = None \<or> inst = None \<or> cnt = 0 \<or> (\<exists>i. init = Some i \<and> port_read i = None)))"
proof (intro conjI allI impI)
  assume "init = None \<or> inst = None \<or> cnt = 0 \<or> (\<exists>i. init = Some i \<and> port_read i = None)"
  then show "Button_Init init inst cnt this = Some (- 1, this)"
    by (rule Button_Init_failure)
next
  fix i a
  assume ok: "init = Some i \<and> inst = Some a \<and> cnt \<noteq> 0 \<and> port_read i \<noteq> None
              \<and> unat cnt \<le> length a"
  then have "port_read i \<noteq> None" "cnt \<noteq> 0" "unat cnt \<le> length a"
    by simp_all
  from Button_Init_success [OF this, of this] obtain insts where
    res: "Button_Init (Some i) (Some a) cnt this =
       Some (0, Some (i\<lparr>instance_arr := insts,
                        count := cnt,
                        process_time_ms :=
                          (if process_time_ms i \<noteq> 0 then process_time_ms i else 10),
                        debounce_time_ms :=
                          (if debounce_time_ms i \<noteq> 0 then debounce_time_ms i else 20),
                        long_press_def_ms :=
                          (if long_press_def_ms i \<noteq> 0 then long_press_def_ms i else 1000)\<rparr>))"
    and len: "length insts = length a"
    and nth: "\<forall>k<length a.
                 insts ! k =
                   (if k < unat cnt
                    then (a ! k)\<lparr>locked := False, prew := BTN_STATE_NONE, long_count := 0,
                           lock_count := 0,
                           long_press_time_ms :=
                             (if long_press_time_ms (a ! k) \<noteq> 0 then long_press_time_ms (a ! k)
                              else if long_press_def_ms i \<noteq> 0 then long_press_def_ms i
                              else 1000)\<rparr>
                    else a ! k)"
    by blast
  from nth have "\<forall>k<length a. port (insts ! k) = port (a ! k) \<and> pin (insts ! k) = pin (a ! k)"
    by simp
  with res len ok show "\<exists>t. Button_Init init inst cnt this = Some (0, Some t)
             \<and> count t = cnt
             \<and> port_read t = port_read i
             \<and> short_release t = short_release i
             \<and> long_release t = long_release i
             \<and> long_press t = long_press i
             \<and> length (instance_arr t) = length a
             \<and> (\<forall>k<length a. port (instance_arr t ! k) = port (a ! k)
                             \<and> pin (instance_arr t ! k) = pin (a ! k))"
    by simp
next
  fix r this'
  assume "Button_Init init inst cnt this = Some (r, this')"
  from Button_Init_code [OF this]
  show "r < 0 \<longleftrightarrow>
          init = None \<or> inst = None \<or> cnt = 0 \<or> (\<exists>i. init = Some i \<and> port_read i = None)"
    by auto
qed

text \<open>The calls of \<^verbatim>\<open>test_button_init\<close>: all arguments null, and the positive case.\<close>

theorem Button_Init_result_witness:
  "Button_Init None None 0 (None :: uint16_t btn_init_t option) = Some (- 1, None)
   \<and> port_read single_btn_init \<noteq> None
   \<and> unat (1 :: uint8_t) \<le> length [single_btn_inst]
   \<and> (\<exists>t. Button_Init (Some single_btn_init) (Some [single_btn_inst]) 1 None = Some (0, Some t)
          \<and> count t = 1
          \<and> port_read t = port_read single_btn_init
          \<and> length (instance_arr t) = 1)"
  using Button_Init_result [of None None 0 "None :: uint16_t btn_init_t option"]
    Button_Init_result [of "Some single_btn_init" "Some [single_btn_inst]" 1 None]
  by (simp add: single_btn_init_def) blast

text \<open>
  The initialization writes no active state: every instance of the array, configured or
  not, keeps the one that the caller's storage held before the call.
\<close>

lemma Button_Init_act_kept:
  assumes "port_read i \<noteq> None" and "cnt \<noteq> 0" and "unat cnt \<le> length a"
  shows "\<exists>t. Button_Init (Some i) (Some a) cnt this = Some (0, Some t)
           \<and> (\<forall>k<length a. act (instance_arr t ! k) = act (a ! k))"
proof -
  from Button_Init_success [OF assms, of this] obtain insts where
    res: "Button_Init (Some i) (Some a) cnt this =
       Some (0, Some (i\<lparr>instance_arr := insts,
                        count := cnt,
                        process_time_ms :=
                          (if process_time_ms i \<noteq> 0 then process_time_ms i else 10),
                        debounce_time_ms :=
                          (if debounce_time_ms i \<noteq> 0 then debounce_time_ms i else 20),
                        long_press_def_ms :=
                          (if long_press_def_ms i \<noteq> 0 then long_press_def_ms i else 1000)\<rparr>))"
    and nth: "\<forall>k<length a.
                 insts ! k =
                   (if k < unat cnt
                    then (a ! k)\<lparr>locked := False, prew := BTN_STATE_NONE, long_count := 0,
                           lock_count := 0,
                           long_press_time_ms :=
                             (if long_press_time_ms (a ! k) \<noteq> 0 then long_press_time_ms (a ! k)
                              else if long_press_def_ms i \<noteq> 0 then long_press_def_ms i
                              else 1000)\<rparr>
                    else a ! k)"
    by blast
  from nth have "\<forall>k<length a. act (insts ! k) = act (a ! k)"
    by simp
  with res show ?thesis
    by simp
qed

text \<open>
  Claim C6, as amended. On every successful initialization each configured button is
  unlocked, its \<open>lock_count\<close> and \<open>long_count\<close> are 0 and its previous raw state is None.
\<close>

theorem Button_Init_runtime_state:
  assumes "port_read i \<noteq> None" and "cnt \<noteq> 0" and "unat cnt \<le> length a"
  shows "\<exists>t. Button_Init (Some i) (Some a) cnt this = Some (0, Some t)
           \<and> (\<forall>k<unat cnt.
                 \<not> locked (instance_arr t ! k)
                 \<and> lock_count (instance_arr t ! k) = 0
                 \<and> long_count (instance_arr t ! k) = 0
                 \<and> prew (instance_arr t ! k) = BTN_STATE_NONE)"
proof -
  from Button_Init_success [OF assms, of this] obtain insts where
    res: "Button_Init (Some i) (Some a) cnt this =
       Some (0, Some (i\<lparr>instance_arr := insts,
                        count := cnt,
                        process_time_ms :=
                          (if process_time_ms i \<noteq> 0 then process_time_ms i else 10),
                        debounce_time_ms :=
                          (if debounce_time_ms i \<noteq> 0 then debounce_time_ms i else 20),
                        long_press_def_ms :=
                          (if long_press_def_ms i \<noteq> 0 then long_press_def_ms i else 1000)\<rparr>))"
    and nth: "\<forall>k<length a.
                 insts ! k =
                   (if k < unat cnt
                    then (a ! k)\<lparr>locked := False, prew := BTN_STATE_NONE, long_count := 0,
                           lock_count := 0,
                           long_press_time_ms :=
                             (if long_press_time_ms (a ! k) \<noteq> 0 then long_press_time_ms (a ! k)
                              else if long_press_def_ms i \<noteq> 0 then long_press_def_ms i
                              else 1000)\<rparr>
                    else a ! k)"
    by blast
  from nth assms(3) have
    "\<forall>k<unat cnt. \<not> locked (insts ! k) \<and> lock_count (insts ! k) = 0
        \<and> long_count (insts ! k) = 0 \<and> prew (insts ! k) = BTN_STATE_NONE"
    by simp
  with res show ?thesis
    by simp
qed

theorem Button_Init_runtime_state_witness:
  "port_read single_btn_init \<noteq> None
   \<and> unat (1 :: uint8_t) \<le> length [held_btn 2 7 BTN_STATE_LONG]
   \<and> (\<exists>t. Button_Init (Some single_btn_init) (Some [held_btn 2 7 BTN_STATE_LONG]) 1 None
            = Some (0, Some t)
          \<and> \<not> locked (instance_arr t ! 0)
          \<and> lock_count (instance_arr t ! 0) = 0
          \<and> long_count (instance_arr t ! 0) = 0
          \<and> prew (instance_arr t ! 0) = BTN_STATE_NONE)"
  using Button_Init_runtime_state
    [of single_btn_init 1 "[held_btn 2 7 BTN_STATE_LONG]" None]
  by (simp add: single_btn_init_def held_btn_simps)

text \<open>
  Claim C6 as stated fails on the active state. The ticks of the short press of
  \<^verbatim>\<open>test_single_button_press\<close> leave the button with the active state Short; an
  initialization over that storage succeeds and the query still returns Short.
\<close>

theorem Button_Init_runtime_state_counterexample:
  "Button_Update_ticks (Some single_engine) [0, 10, 20, 30, 40, 50, 60, 70, 80]
     = Some (Some (single_engine
                \<lparr>instance_arr :=
                   [single_btn_inst\<lparr>act := BTN_STATE_SHORT, prew := BTN_STATE_SHORT\<rparr>]\<rparr>),
             [(btn_ev_short_release, 0)])
   \<and> Button_Init (Some single_btn_init)
        (Some [single_btn_inst\<lparr>act := BTN_STATE_SHORT, prew := BTN_STATE_SHORT\<rparr>]) 1 None
     = Some (0, Some (single_engine
                \<lparr>instance_arr := [single_btn_inst\<lparr>act := BTN_STATE_SHORT\<rparr>]\<rparr>))
   \<and> Button_EventGet
        (Some (single_engine\<lparr>instance_arr := [single_btn_inst\<lparr>act := BTN_STATE_SHORT\<rparr>]\<rparr>)) 0
     = Some BTN_STATE_SHORT"
  by code_simp

text \<open>
  Claim C7. On every successful initialization a timing field left at zero gets its
  default (10, 20 and 1000 ms), a nonzero one is kept, and every configured button whose
  own long-press time is zero gets the global long-press time, a nonzero one being kept.
\<close>

theorem Button_Init_defaults:
  assumes "port_read i \<noteq> None" and "cnt \<noteq> 0" and "unat cnt \<le> length a"
  shows "\<exists>t. Button_Init (Some i) (Some a) cnt this = Some (0, Some t)
           \<and> process_time_ms t = (if process_time_ms i = 0 then 10 else process_time_ms i)
           \<and> debounce_time_ms t = (if debounce_time_ms i = 0 then 20 else debounce_time_ms i)
           \<and> long_press_def_ms t =
               (if long_press_def_ms i = 0 then 1000 else long_press_def_ms i)
           \<and> (\<forall>k<unat cnt.
                 long_press_time_ms (instance_arr t ! k) =
                   (if long_press_time_ms (a ! k) = 0 then long_press_def_ms t
                    else long_press_time_ms (a ! k)))"
proof -
  from Button_Init_success [OF assms, of this] obtain insts where
    res: "Button_Init (Some i) (Some a) cnt this =
       Some (0, Some (i\<lparr>instance_arr := insts,
                        count := cnt,
                        process_time_ms :=
                          (if process_time_ms i \<noteq> 0 then process_time_ms i else 10),
                        debounce_time_ms :=
                          (if debounce_time_ms i \<noteq> 0 then debounce_time_ms i else 20),
                        long_press_def_ms :=
                          (if long_press_def_ms i \<noteq> 0 then long_press_def_ms i else 1000)\<rparr>))"
    and nth: "\<forall>k<length a.
                 insts ! k =
                   (if k < unat cnt
                    then (a ! k)\<lparr>locked := False, prew := BTN_STATE_NONE, long_count := 0,
                           lock_count := 0,
                           long_press_time_ms :=
                             (if long_press_time_ms (a ! k) \<noteq> 0 then long_press_time_ms (a ! k)
                              else if long_press_def_ms i \<noteq> 0 then long_press_def_ms i
                              else 1000)\<rparr>
                    else a ! k)"
    by blast
  from nth assms(3) have
    "\<forall>k<unat cnt. long_press_time_ms (insts ! k) =
        (if long_press_time_ms (a ! k) = 0
         then (if long_press_def_ms i = 0 then 1000 else long_press_def_ms i)
         else long_press_time_ms (a ! k))"
    by simp
  with res show ?thesis
    by simp
qed

text \<open>
  The array of \<^verbatim>\<open>test_init_defaults\<close> under a configuration whose timing fields are all
  left at zero, with the values that the test asserts.
\<close>

theorem Button_Init_defaults_witness:
  "port_read multi_btn_init \<noteq> None
   \<and> unat (2 :: uint8_t) \<le> length defaults_btn_inst
   \<and> (\<exists>t. Button_Init (Some multi_btn_init) (Some defaults_btn_inst) 2 None = Some (0, Some t)
          \<and> process_time_ms t = 10
          \<and> debounce_time_ms t = 20
          \<and> long_press_def_ms t = 1000
          \<and> long_press_time_ms (instance_arr t ! 0) = 1000
          \<and> long_press_time_ms (instance_arr t ! 1) = 2050)"
proof -
  have h: "port_read multi_btn_init \<noteq> None" "(2 :: uint8_t) \<noteq> 0"
    "unat (2 :: uint8_t) \<le> length defaults_btn_inst"
    by (simp_all add: multi_btn_init_def defaults_btn_inst_def)
  from Button_Init_defaults [OF h, of None] obtain t where
    t: "Button_Init (Some multi_btn_init) (Some defaults_btn_inst) 2 None = Some (0, Some t)"
      "process_time_ms t = 10" "debounce_time_ms t = 20" "long_press_def_ms t = 1000"
    and nth: "\<forall>k<unat (2 :: uint8_t).
                long_press_time_ms (instance_arr t ! k) =
                  (if long_press_time_ms (defaults_btn_inst ! k) = 0 then long_press_def_ms t
                   else long_press_time_ms (defaults_btn_inst ! k))"
    by (auto simp: multi_btn_init_def)
  from nth [rule_format, of 0] nth [rule_format, of 1] t(4) have
    "long_press_time_ms (instance_arr t ! 0) = 1000"
    "long_press_time_ms (instance_arr t ! 1) = 2050"
    by (simp_all add: defaults_btn_inst_def)
  with h t show ?thesis
    by blast
qed


section \<open>The active state\<close>

text \<open>
  The active state after one iteration, in terms of the instance before it: Long on the
  long-press path, Short on the short-release path, unchanged otherwise.
\<close>

lemma Button_Update_key_act:
  assumes "port_read t = Some rd" and "BTN_DEBOUNCE_TIME t = Some d"
    and "BTN_LONG_PRESS_TIME t b = Some thr"
    and "Button_Update_key t w key b = Some (b', cs)"
  shows "act b' =
           (if rd w (port b) (pin b) \<noteq> 0
            then (if (locked b \<or> d \<le> uint (lock_count b + 1)) \<and> prew b = BTN_STATE_SHORT
                     \<and> thr \<le> uint (long_count b + 1)
                  then BTN_STATE_LONG else act b)
            else (if locked b \<and> lock_count b = 0 \<and> uint (long_count b) < thr
                  then BTN_STATE_SHORT else act b))"
proof (cases "rd w (port b) (pin b) \<noteq> 0")
  case True
  with assms show ?thesis
    by (auto simp: Button_Update_key_def Button_Update_pressed_def BTN_LONG_PRESS_TIME_def
          BTN_DEBOUNCE_TIME_def Let_def split: if_splits)
next
  case False
  with assms show ?thesis
    by (auto simp: Button_Update_key_def Button_Update_released_def BTN_LONG_PRESS_TIME_def
          Let_def split: if_splits)
qed

lemma Button_Update_key_act_kept:
  assumes "Button_Update_key t w key b = Some (b', cs)" and "act b \<noteq> BTN_STATE_NONE"
  shows "act b' \<noteq> BTN_STATE_NONE"
proof -
  from assms(1) obtain rd where rd: "port_read t = Some rd"
    by (auto simp: Button_Update_key_def split: option.splits)
  show ?thesis
  proof (cases "rd w (port b) (pin b) \<noteq> 0")
    case True
    with assms rd show ?thesis
      by (auto simp: Button_Update_key_def Button_Update_pressed_def Let_def
            split: if_splits bind_splits)
  next
    case False
    with assms rd show ?thesis
      by (auto simp: Button_Update_key_def Button_Update_released_def Let_def
            split: if_splits bind_splits)
  qed
qed

text \<open>
  Claim C4, as amended. On an initialized engine one update changes the active state of a
  button in two ways only. It sets it to Long, whatever it was, on a pressed tick on which
  the button is locked (before the tick or by it), its previous raw state is pressed and
  the incremented \<open>long_count\<close> is at or above the threshold. It sets it to Short, whatever
  it was (Long included), on the released tick that finalizes a release with \<open>long_count\<close>
  below the threshold. Otherwise it is kept; in particular it is never set to None.
\<close>

theorem Button_Update_act:
  assumes "Button_ready t" and "port_read t = Some rd" and "key < count t"
    and "b = instance_arr t ! unat key"
    and "BTN_DEBOUNCE_TIME t = Some d" and "BTN_LONG_PRESS_TIME t b = Some thr"
  shows "\<exists>insts cs.
           Button_Update (Some t) w = Some (Some (t\<lparr>instance_arr := insts\<rparr>), cs)
           \<and> act (insts ! unat key) =
               (if rd w (port b) (pin b) \<noteq> 0
                then (if (locked b \<or> d \<le> uint (lock_count b + 1)) \<and> prew b = BTN_STATE_SHORT
                         \<and> thr \<le> uint (long_count b + 1)
                      then BTN_STATE_LONG else act b)
                else (if locked b \<and> lock_count b = 0 \<and> uint (long_count b) < thr
                      then BTN_STATE_SHORT else act b))
           \<and> (act (insts ! unat key) = BTN_STATE_NONE \<longrightarrow> act b = BTN_STATE_NONE)"
proof -
  from Button_Update_at [OF assms(1,3), of w] obtain insts cs b' c where
    upd: "Button_Update (Some t) w = Some (Some (t\<lparr>instance_arr := insts\<rparr>), cs)"
    and body: "Button_Update_key t w key (instance_arr t ! unat key) = Some (b', c)"
    and nth: "insts ! unat key = b'"
    by blast
  from body have body': "Button_Update_key t w key b = Some (b', c)"
    by (simp add: assms(4))
  from Button_Update_key_act [OF assms(2,5,6) body']
    Button_Update_key_act_kept [OF body'] upd nth
  show ?thesis
    by (intro exI [of _ insts] exI [of _ cs]) auto
qed

text \<open>
  On the held button with \<open>lock_count\<close> 0 and \<open>long_count\<close> 1 (threshold 3) whose active
  state is Long, a released tick sets the active state to Short.
\<close>

theorem Button_Update_act_witness:
  "Button_ready (held_engine 0 1 BTN_STATE_LONG)
   \<and> BTN_DEBOUNCE_TIME (held_engine 0 1 BTN_STATE_LONG) = Some 2
   \<and> BTN_LONG_PRESS_TIME (held_engine 0 1 BTN_STATE_LONG) (held_btn 0 1 BTN_STATE_LONG) = Some 3
   \<and> (\<exists>insts cs.
         Button_Update (Some (held_engine 0 1 BTN_STATE_LONG)) 50
           = Some (Some (held_engine 0 1 BTN_STATE_LONG\<lparr>instance_arr := insts\<rparr>), cs)
         \<and> act (insts ! 0) = BTN_STATE_SHORT)"
  using Button_Update_act
    [of "held_engine 0 1 BTN_STATE_LONG" test_single_button_port_read 0
        "held_btn 0 1 BTN_STATE_LONG" 2 3 50]
  by (simp add: held_engine_ready held_engine_simps held_btn_simps
        test_single_button_port_read_simps) blast

text \<open>
  Claim C4 as stated fails. On the freshly initialized button whose threshold is three
  ticks, the fourth pressed tick takes the active state from None to Long without passing
  through Short; after the release and a second, short press, the tick that finalizes the
  release takes it from Long to Short without passing through None.
\<close>

theorem Button_Update_act_counterexample:
  "Button_Update_ticks (Some quick_engine) [1000, 1010, 1020]
     = Some (Some (held_engine 2 2 BTN_STATE_NONE), [])
   \<and> Button_Update (Some (held_engine 2 2 BTN_STATE_NONE)) 1030
     = Some (Some (held_engine 2 3 BTN_STATE_LONG), [(btn_ev_long_press, 0)])
   \<and> Button_Update_ticks (Some quick_engine)
        [1000, 1010, 1020, 1030, 50, 50, 50, 50, 1000, 1010, 50, 50]
     = Some (Some (held_engine 0 1 BTN_STATE_LONG),
             [(btn_ev_long_press, 0), (btn_ev_long_release, 0)])
   \<and> Button_Update (Some (held_engine 0 1 BTN_STATE_LONG)) 50
     = Some (Some (single_engine
                \<lparr>instance_arr := [held_btn 0 1 BTN_STATE_SHORT\<lparr>locked := False\<rparr>]\<rparr>),
             [(btn_ev_short_release, 0)])"
  by code_simp


section \<open>Debounce\<close>


lemma BTN_DEBOUNCE_TIME_storage [simp]:
  "BTN_DEBOUNCE_TIME (t\<lparr>instance_arr := insts\<rparr>) = BTN_DEBOUNCE_TIME t"
  by (simp add: BTN_DEBOUNCE_TIME_def)








section \<open>The active state over the life of the engine\<close>

lemma Button_Update_loop_act_kept:
  "Button_Update_loop this w key insts cs = Some (insts', cs') \<Longrightarrow> k < length insts
     \<Longrightarrow> act (insts ! k) \<noteq> BTN_STATE_NONE \<Longrightarrow> act (insts' ! k) \<noteq> BTN_STATE_NONE"
proof (induction this w key insts cs rule: Button_Update_loop.induct)
  case (1 this w key insts cs)
  show ?case
  proof (cases "key < count this")
    case False
    with "1.prems" show ?thesis
      by (simp add: Button_Update_loop_stop)
  next
    case True
    from "1.prems"(1) True obtain b1 c1 where len: "unat key < length insts"
      and body: "Button_Update_key this w key (insts ! unat key) = Some (b1, c1)"
      and rest: "Button_Update_loop this w (key + 1) (insts[unat key := b1]) (cs @ c1)
                 = Some (insts', cs')"
      by (rule Button_Update_loop_step)
    have "act (insts[unat key := b1] ! k) \<noteq> BTN_STATE_NONE"
    proof (cases "k = unat key")
      case True
      with "1.prems"(2,3) Button_Update_key_act_kept [OF body] show ?thesis
        by simp
    next
      case False
      with "1.prems"(3) show ?thesis
        by simp
    qed
    with "1.IH" [OF True len body refl rest] "1.prems"(2) show ?thesis
      by simp
  qed
qed

lemma Button_Update_act_kept:
  assumes "Button_ready t"
  shows "\<exists>insts cs.
           Button_Update (Some t) w = Some (Some (t\<lparr>instance_arr := insts\<rparr>), cs)
           \<and> length insts = length (instance_arr t)
           \<and> (\<forall>k<length (instance_arr t).
                 act (instance_arr t ! k) \<noteq> BTN_STATE_NONE \<longrightarrow> act (insts ! k) \<noteq> BTN_STATE_NONE)"
proof -
  from assms obtain rd where rd: "port_read t = Some rd"
    by (auto simp: Button_ready_def)
  from assms have pt: "process_time_ms t \<noteq> 0" and len: "unat (count t) \<le> length (instance_arr t)"
    by (simp_all add: Button_ready_def)
  from Button_Update_loop_total [OF rd pt len, of w 0 "[]"] obtain insts cs where
    loop: "Button_Update_loop t w 0 (instance_arr t) [] = Some (insts, cs)"
    by fastforce
  with Button_Update_loop_length [OF loop] Button_Update_loop_act_kept [OF loop] show ?thesis
    by (intro exI [of _ insts] exI [of _ cs]) (simp add: Button_Update_def)
qed

text \<open>
  An initialization over the storage the engine is bound to either fails and changes
  nothing, or succeeds and leaves every stored active state as it was.
\<close>

lemma Button_op_act_kept:
  assumes ready: "Button_ready t"
    and ok: "\<forall>init cnt. x = Op_Init init cnt \<longrightarrow> unat cnt \<le> length (instance_arr t)"
  shows "\<exists>t'. Button_op t x = Some t' \<and> Button_ready t'
           \<and> length (instance_arr t') = length (instance_arr t)
           \<and> (\<forall>k<length (instance_arr t).
                 act (instance_arr t ! k) \<noteq> BTN_STATE_NONE
                 \<longrightarrow> act (instance_arr t' ! k) \<noteq> BTN_STATE_NONE)"
proof (cases x)
  case (Op_Update w)
  from Button_Update_act_kept [OF ready, of w] obtain insts cs where
    "Button_Update (Some t) w = Some (Some (t\<lparr>instance_arr := insts\<rparr>), cs)"
    "length insts = length (instance_arr t)"
    "\<forall>k<length (instance_arr t).
        act (instance_arr t ! k) \<noteq> BTN_STATE_NONE \<longrightarrow> act (insts ! k) \<noteq> BTN_STATE_NONE"
    by blast
  with Op_Update ready show ?thesis
    by (intro exI [of _ "t\<lparr>instance_arr := insts\<rparr>"]) simp
next
  case (Op_Init init cnt)
  from ok Op_Init have len: "unat cnt \<le> length (instance_arr t)"
    by simp
  show ?thesis
  proof (cases "init = None \<or> cnt = 0 \<or> (\<exists>i. init = Some i \<and> port_read i = None)")
    case True
    then have "Button_Init init (Some (instance_arr t)) cnt (Some t) = Some (- 1, Some t)"
      by (intro Button_Init_failure) auto
    with Op_Init ready show ?thesis
      by simp
  next
    case False
    then obtain i where i: "init = Some i" "port_read i \<noteq> None" "cnt \<noteq> 0"
      by auto
    from Button_Init_success [OF i(2,3) len, of "Some t"] obtain insts where
      res: "Button_Init (Some i) (Some (instance_arr t)) cnt (Some t) =
         Some (0, Some (i\<lparr>instance_arr := insts,
                          count := cnt,
                          process_time_ms :=
                            (if process_time_ms i \<noteq> 0 then process_time_ms i else 10),
                          debounce_time_ms :=
                            (if debounce_time_ms i \<noteq> 0 then debounce_time_ms i else 20),
                          long_press_def_ms :=
                            (if long_press_def_ms i \<noteq> 0 then long_press_def_ms i else 1000)\<rparr>))"
      and len': "length insts = length (instance_arr t)"
      and nth: "\<forall>k<length (instance_arr t).
                   insts ! k =
                     (if k < unat cnt
                      then (instance_arr t ! k)\<lparr>locked := False, prew := BTN_STATE_NONE,
                             long_count := 0, lock_count := 0,
                             long_press_time_ms :=
                               (if long_press_time_ms (instance_arr t ! k) \<noteq> 0
                                then long_press_time_ms (instance_arr t ! k)
                                else if long_press_def_ms i \<noteq> 0 then long_press_def_ms i
                                else 1000)\<rparr>
                      else instance_arr t ! k)"
      by blast
    from nth have "\<forall>k<length (instance_arr t). act (insts ! k) = act (instance_arr t ! k)"
      by simp
    with res len' len i Op_Init show ?thesis
      by (simp add: Button_ready_def)
  qed
qed

lemma Button_ops_act_kept_storage:
  "Button_ready t
     \<Longrightarrow> \<forall>init cnt. Op_Init init cnt \<in> set xs \<longrightarrow> unat cnt \<le> length (instance_arr t)
     \<Longrightarrow> k < length (instance_arr t) \<Longrightarrow> act (instance_arr t ! k) \<noteq> BTN_STATE_NONE
     \<Longrightarrow> \<exists>t'. Button_ops t xs = Some t' \<and> Button_ready t'
           \<and> length (instance_arr t') = length (instance_arr t)
           \<and> act (instance_arr t' ! k) \<noteq> BTN_STATE_NONE"
proof (induction xs arbitrary: t)
  case Nil
  then show ?case
    by simp
next
  case (Cons x xs)
  from Cons.prems(2) have
    "\<forall>init cnt. x = Op_Init init cnt \<longrightarrow> unat cnt \<le> length (instance_arr t)"
    by simp
  from Button_op_act_kept [OF Cons.prems(1) this] Cons.prems(3,4) obtain t1 where
    t1: "Button_op t x = Some t1" "Button_ready t1"
      "length (instance_arr t1) = length (instance_arr t)"
      "act (instance_arr t1 ! k) \<noteq> BTN_STATE_NONE"
    by blast
  from Cons.prems(2,3) t1(3) have
    "\<forall>init cnt. Op_Init init cnt \<in> set xs \<longrightarrow> unat cnt \<le> length (instance_arr t1)"
    "k < length (instance_arr t1)"
    by simp_all
  from Cons.IH [OF t1(2) this t1(4)] t1(1,3) show ?case
    by simp
qed

text \<open>
  Claim C10, as amended. An engine is initialized and the stored active state of a button
  is Short or Long. Whatever the caller does next, ticking or initializing again over the
  same storage (with counts that the storage holds), the stored active state is never None
  again, and the query returns it, hence not None, whenever the index of the button is
  below the count then configured.
\<close>

theorem Button_ops_act_kept:
  assumes "Button_ready t" and "unat key < length (instance_arr t)"
    and "act (instance_arr t ! unat key) \<noteq> BTN_STATE_NONE"
    and "\<forall>init cnt. Op_Init init cnt \<in> set xs \<longrightarrow> unat cnt \<le> length (instance_arr t)"
  shows "\<exists>t'. Button_ops t xs = Some t'
           \<and> act (instance_arr t' ! unat key) \<noteq> BTN_STATE_NONE
           \<and> (key < count t' \<longrightarrow>
                Button_EventGet (Some t') key = Some (act (instance_arr t' ! unat key))
                \<and> Button_EventGet (Some t') key \<noteq> Some BTN_STATE_NONE)"
proof -
  from Button_ops_act_kept_storage [OF assms(1,4,2,3)] obtain t' where
    t': "Button_ops t xs = Some t'" "Button_ready t'"
      "length (instance_arr t') = length (instance_arr t)"
      "act (instance_arr t' ! unat key) \<noteq> BTN_STATE_NONE"
    by blast
  from t'(3) assms(2) have
    "key < count t' \<Longrightarrow> Button_EventGet (Some t') key = Some (act (instance_arr t' ! unat key))"
    by (simp add: Button_EventGet_def word_less_nat_alt word_le_nat_alt)
  with t'(1,4) show ?thesis
    by (intro exI [of _ t']) simp
qed

text \<open>
  The two buttons of \<^verbatim>\<open>test_multi_button_press\<close> after their short presses: a tick, an
  initialization over the same storage with the same count, and another tick.
\<close>

theorem Button_ops_act_kept_witness:
  "Button_ready (multi_engine (multi_btns BTN_STATE_SHORT BTN_STATE_SHORT BTN_STATE_SHORT) 2)
   \<and> act (multi_btns BTN_STATE_SHORT BTN_STATE_SHORT BTN_STATE_SHORT ! unat (1 :: uint8_t))
        \<noteq> BTN_STATE_NONE
   \<and> Button_ops (multi_engine (multi_btns BTN_STATE_SHORT BTN_STATE_SHORT BTN_STATE_SHORT) 2)
        [Op_Update 100, Op_Init (Some multi_btn_init) 2, Op_Update 110]
     = Some (multi_engine (multi_btns BTN_STATE_SHORT BTN_STATE_NONE BTN_STATE_NONE) 2)
   \<and> Button_EventGet
        (Some (multi_engine (multi_btns BTN_STATE_SHORT BTN_STATE_NONE BTN_STATE_NONE) 2)) 1
     \<noteq> Some BTN_STATE_NONE"
proof -
  let ?t = "multi_engine (multi_btns BTN_STATE_SHORT BTN_STATE_SHORT BTN_STATE_SHORT) 2"
  let ?t' = "multi_engine (multi_btns BTN_STATE_SHORT BTN_STATE_NONE BTN_STATE_NONE) 2"
  let ?xs = "[Op_Update 100, Op_Init (Some multi_btn_init) 2, Op_Update 110]"
  have ready: "Button_ready ?t"
    by (simp add: Button_ready_def multi_engine_def multi_btn_init_def multi_btns_def)
  have len: "unat (1 :: uint8_t) < length (instance_arr ?t)"
    by (simp add: multi_engine_def multi_btns_def)
  have act: "act (instance_arr ?t ! unat (1 :: uint8_t)) \<noteq> BTN_STATE_NONE"
    by (simp add: multi_engine_def multi_btns_def)
  have ok: "\<forall>init cnt. Op_Init init cnt \<in> set ?xs \<longrightarrow> unat cnt \<le> length (instance_arr ?t)"
    by (simp add: multi_engine_def multi_btns_def)
  have run: "Button_ops ?t ?xs = Some ?t'"
    by code_simp
  have below: "(1 :: uint8_t) < count ?t'"
    by (simp add: multi_engine_def)
  from Button_ops_act_kept [OF ready len act ok] run below
  have "Button_EventGet (Some ?t') 1 \<noteq> Some BTN_STATE_NONE"
    by simp
  with ready act run show ?thesis
    by (simp add: multi_engine_def)
qed

text \<open>
  Claim C10 as stated fails. After the ticks of \<^verbatim>\<open>test_multi_button_press\<close> the second
  button holds Short and the query returns Short for the index 1. An initialization over
  the same storage with the count 1 succeeds and leaves the stored active state, but the
  query now returns None for the index 1, which is no longer below the count.
\<close>

theorem Button_ops_act_kept_counterexample:
  "Button_Init (Some multi_btn_init) (Some multi_btn_inst) 2 None
     = Some (0, Some (multi_engine (multi_btns BTN_STATE_NONE BTN_STATE_NONE BTN_STATE_NONE) 2))
   \<and> Button_ops (multi_engine (multi_btns BTN_STATE_NONE BTN_STATE_NONE BTN_STATE_NONE) 2)
        (map Op_Update [0, 10, 20, 30, 40, 50, 60, 70, 80, 90])
     = Some (multi_engine (multi_btns BTN_STATE_SHORT BTN_STATE_SHORT BTN_STATE_SHORT) 2)
   \<and> Button_EventGet
        (Some (multi_engine (multi_btns BTN_STATE_SHORT BTN_STATE_SHORT BTN_STATE_SHORT) 2)) 1
     = Some BTN_STATE_SHORT
   \<and> Button_ops (multi_engine (multi_btns BTN_STATE_SHORT BTN_STATE_SHORT BTN_STATE_SHORT) 2)
        [Op_Init (Some multi_btn_init) 1]
     = Some (multi_engine (multi_btns BTN_STATE_SHORT BTN_STATE_NONE BTN_STATE_SHORT) 1)
   \<and> act (instance_arr
             (multi_engine (multi_btns BTN_STATE_SHORT BTN_STATE_NONE BTN_STATE_SHORT) 1) ! 1)
     = BTN_STATE_SHORT
   \<and> Button_EventGet
        (Some (multi_engine (multi_btns BTN_STATE_SHORT BTN_STATE_NONE BTN_STATE_SHORT) 1)) 1
     = Some BTN_STATE_NONE"
  by code_simp


end
